theory Spec2Isabelle
  imports Complex_Main "HOL-Library.Multiset"
begin

section \<open>JavaScript values and operators\<close>

text \<open>
  The dashboard is written in JavaScript. Its numbers are modelled as exact rationals
  (\<^typ>\<open>rat\<close>): every finite double is a rational, \<open>NaN\<close> and the infinities cannot come
  out of a JSON document, and the rounding of \<open>+\<close> and \<open>/\<close> is not modelled. Identifiers
  that are integers (roster ids, matchup ids, week numbers) are \<^typ>\<open>int\<close>.

  A JSON field that may be absent or \<open>null\<close> is an \<^typ>\<open>'a option\<close>. The inputs are the
  arrays of objects the upstream API documents: a field is either absent or of its
  documented type. Objects used as dictionaries are maps, or association lists where the
  order of the keys matters; keys that collide with a member of \<open>Object.prototype\<close> are
  not modelled. An operation that can throw returns a sum, \<open>Inl\<close> the exception; a fetch
  is a function from the week to its JSON value, \<open>None\<close> when the fetch failed.
\<close>

datatype js_error = TypeError | Error string

definition num_or :: "rat option \<Rightarrow> rat \<Rightarrow> rat" where
  \<comment> \<open>\<open>x || d\<close> for a number \<open>x\<close>: \<open>undefined\<close>, \<open>null\<close> and \<open>0\<close> are falsy.\<close>
  "num_or x d = (case x of None \<Rightarrow> d | Some v \<Rightarrow> if v = 0 then d else v)"

definition int_or :: "int option \<Rightarrow> int \<Rightarrow> int" where
  "int_or x d = (case x of None \<Rightarrow> d | Some v \<Rightarrow> if v = 0 then d else v)"

definition truthy_str :: "string option \<Rightarrow> bool" where
  \<comment> \<open>\<open>undefined\<close>, \<open>null\<close> and the empty string are falsy.\<close>
  "truthy_str x = (case x of None \<Rightarrow> False | Some s \<Rightarrow> s \<noteq> [])"

definition str_or_opt :: "string option \<Rightarrow> string option \<Rightarrow> string option" where
  \<comment> \<open>\<open>x || y\<close> where \<open>y\<close> may itself be missing.\<close>
  "str_or_opt x y = (if truthy_str x then x else y)"

definition str_or :: "string option \<Rightarrow> string \<Rightarrow> string" where
  \<comment> \<open>\<open>x || d\<close> with a string literal \<open>d\<close>.\<close>
  "str_or x d = (case x of None \<Rightarrow> d | Some s \<Rightarrow> if s = [] then d else s)"

definition prop_key :: "string option \<Rightarrow> string" where
  \<comment> \<open>The property key of \<open>obj[k]\<close> for a string-or-null \<open>k\<close>: \<open>null\<close> becomes \<open>"null"\<close>.\<close>
  "prop_key k = (case k of None \<Rightarrow> ''null'' | Some s \<Rightarrow> s)"

definition digit :: "nat \<Rightarrow> char" where
  "digit n = ''0123456789'' ! n"

fun nat_digits :: "nat \<Rightarrow> string" where
  "nat_digits n = (if n < 10 then [digit n] else nat_digits (n div 10) @ [digit (n mod 10)])"

declare nat_digits.simps [simp del]

definition js_int_string :: "int \<Rightarrow> string" where
  \<comment> \<open>\<open>`${i}`\<close> for an integer \<open>i\<close> (decimal notation, as JavaScript prints below \<open>10^21\<close>).\<close>
  "js_int_string i = (if i < 0 then CHR ''-'' # nat_digits (nat (- i)) else nat_digits (nat i))"

fun insert_sorted :: "('a \<Rightarrow> 'a \<Rightarrow> rat) \<Rightarrow> 'a \<Rightarrow> 'a list \<Rightarrow> 'a list" where
  "insert_sorted cmp x [] = [x]"
| "insert_sorted cmp x (y # ys) =
     (if cmp x y > 0 then y # insert_sorted cmp x ys else x # y # ys)"

fun array_sort :: "('a \<Rightarrow> 'a \<Rightarrow> rat) \<Rightarrow> 'a list \<Rightarrow> 'a list" where
  \<comment> \<open>\<open>Array.prototype.sort(cmp)\<close>: ECMAScript requires the sort to be stable, so for a
      consistent comparator its result is the one a stable insertion sort gives. An
      element moves behind another only when the comparator is positive.\<close>
  "array_sort cmp [] = []"
| "array_sort cmp (x # xs) = insert_sorted cmp x (array_sort cmp xs)"

section \<open>Data model\<close>

record nfl_state =
  week :: "int option"

record matchup_row =
  roster_id :: int
  matchup_id :: "int option"
  points :: "rat option"

record user =
  user_id :: string
  display_name :: "string option"
  username :: "string option"
  avatar :: "string option"

record roster_settings =
  wins :: "rat option"
  losses :: "rat option"
  fpts :: "rat option"
  fpts_decimal :: "rat option"
  fpts_against :: "rat option"
  fpts_against_decimal :: "rat option"

record roster_metadata =
  streak :: "string option"

record roster =
  roster_id :: int
  owner_id :: "string option"
  settings :: "roster_settings option"
  metadata :: "roster_metadata option"

text \<open>
  The objects that carry a week number extend \<open>weekly\<close>.
\<close>

record weekly =
  week :: int

text \<open>
  \<open>App.jsx\<close> reads a backend that mirrors the upstream API: an award of the feed
  \<open>/api/awards/{week}\<close>, the view of a week's awards built from it, and a row of
  \<open>/api/standings\<close>, which arrives ranked and is given \<open>rank\<close> and \<open>pf\<close>.
\<close>

record backend_award =
  title :: string
  winner :: string
  detail :: string

record award_view =
  team :: string
  points :: string

record horse_view =
  title :: string
  team :: string
  reason :: string

record week_awards = weekly +
  topDawg :: "award_view option"
  superWeenie :: "award_view option"
  horsesAss :: "horse_view option"

record backend_standing =
  points_for :: "rat option"

record 'z backend_team =
  source :: "'z backend_standing_scheme"
  rank :: nat
  pf :: "rat option"

text \<open>
  The derived objects. A standings row carries the two fields of a \<open>userMap\<close> entry and
  the season aggregates; the ranked row adds \<open>rank\<close>. The objects keep the field names of
  the source, so a name declared by several records is written qualified for all but the
  last of them (\<open>user.avatar\<close>, \<open>roster_settings.wins\<close>, \<open>matchup_row.points\<close>).
\<close>

record user_info =
  name :: string
  avatar :: "string option"

record team = user_info +
  wins :: rat
  losses :: rat
  pf :: rat
  pa :: rat
  rosterId :: int
  ownerId :: "string option"
  streak :: string

record ranked_team = team +
  rank :: nat

text \<open>
  An element of a group of the pairer is the score row with its team name resolved and
  its points defaulted: \<open>{ ...m, teamName: ..., points: m.points || 0 }\<close>.
\<close>

record entry =
  roster_id :: int
  matchup_id :: "int option"
  teamName :: string
  points :: rat

record matchup =
  team1 :: string
  score1 :: rat
  team2 :: string
  score2 :: rat

record trend_point = weekly +
  high :: rat
  low :: rat
  avg :: rat

record score =
  team :: "string option"
  points :: rat

record horses_ass =
  name :: "string option"
  detail :: string

record award = weekly +
  topDawg :: score
  superWeenie :: score
  horsesAss :: horses_ass

section \<open>Roster/User Resolver\<close>

definition userMap_entry :: "user \<Rightarrow> user_info" where
  "userMap_entry u =
     \<lparr> user_info.name = str_or (str_or_opt (display_name u) (username u)) ''Unknown'',
       avatar = (case user.avatar u of
                   None \<Rightarrow> None
                 | Some a \<Rightarrow> if a = [] then None
                            else Some (''https://sleepercdn.com/avatars/thumbs/'' @ a)) \<rparr>"

definition userMap_of :: "user list \<Rightarrow> (string \<rightharpoonup> user_info)" where
  \<comment> \<open>\<open>users.forEach(u => { userMap[u.user_id] = ... })\<close>\<close>
  "userMap_of us = foldl (\<lambda>m u. m(user_id u \<mapsto> userMap_entry u)) Map.empty us"

definition resolved_name :: "(string \<rightharpoonup> user_info) \<Rightarrow> roster \<Rightarrow> string" where
  \<comment> \<open>\<open>userMap[r.owner_id]?.name || `Team ${r.roster_id}`\<close>\<close>
  "resolved_name um r =
     str_or (map_option user_info.name (um (prop_key (owner_id r))))
            (''Team '' @ js_int_string (roster.roster_id r))"

definition rosterToUser_of :: "(string \<rightharpoonup> user_info) \<Rightarrow> roster list \<Rightarrow> (int \<rightharpoonup> string)" where
  \<comment> \<open>\<open>rosters.forEach(r => { rosterToUser[r.roster_id] = ... })\<close>\<close>
  "rosterToUser_of um rs = foldl (\<lambda>m r. m(roster.roster_id r \<mapsto> resolved_name um r)) Map.empty rs"

section \<open>Standings Ranker\<close>

definition standings_row :: "(string \<rightharpoonup> user_info) \<Rightarrow> roster \<Rightarrow> team" where
  "standings_row um r =
     \<lparr> user_info.name = resolved_name um r,
       avatar = Option.bind (um (prop_key (owner_id r))) avatar,
       wins = num_or (Option.bind (settings r) roster_settings.wins) 0,
       losses = num_or (Option.bind (settings r) roster_settings.losses) 0,
       pf = num_or (Option.bind (settings r) fpts) 0
            + num_or (Option.bind (settings r) fpts_decimal) 0 / 100,
       pa = num_or (Option.bind (settings r) fpts_against) 0
            + num_or (Option.bind (settings r) fpts_against_decimal) 0 / 100,
       rosterId = roster.roster_id r,
       ownerId = owner_id r,
       streak = str_or (Option.bind (metadata r) roster_metadata.streak) '''' \<rparr>"

definition compareFn :: "team \<Rightarrow> team \<Rightarrow> rat" where
  \<comment> \<open>\<open>(a, b) => b.wins !== a.wins ? b.wins - a.wins : b.pf - a.pf\<close>\<close>
  "compareFn a b = (if wins b \<noteq> wins a then wins b - wins a else pf b - pf a)"

definition with_rank :: "nat \<Rightarrow> team \<Rightarrow> ranked_team" where
  \<comment> \<open>\<open>(t, i) => ({ ...t, rank: i + 1 })\<close>\<close>
  "with_rank i t =
     \<lparr> user_info.name = user_info.name t, avatar = avatar t, wins = wins t,
       losses = losses t, pf = pf t, pa = pa t, rosterId = rosterId t, ownerId = ownerId t,
       streak = streak t, rank = i + 1 \<rparr>"

definition standings_of :: "(string \<rightharpoonup> user_info) \<Rightarrow> roster list \<Rightarrow> ranked_team list" where
  "standings_of um rs =
     map (\<lambda>(i, t). with_rank i t)
         (enumerate 0 (array_sort compareFn (map (standings_row um) rs)))"

section \<open>Matchup Pairer\<close>

definition mk_entry :: "(int \<rightharpoonup> string) \<Rightarrow> matchup_row \<Rightarrow> entry" where
  \<comment> \<open>\<open>{ ...m, teamName: rosterToUser[m.roster_id] || `Team ${m.roster_id}`,
        points: m.points || 0 }\<close>\<close>
  "mk_entry r2u m =
     \<lparr> entry.roster_id = matchup_row.roster_id m,
       entry.matchup_id = matchup_row.matchup_id m,
       teamName = str_or (r2u (matchup_row.roster_id m))
                         (''Team '' @ js_int_string (matchup_row.roster_id m)),
       entry.points = num_or (matchup_row.points m) 0 \<rparr>"

text \<open>
  The object \<open>grouped\<close> is an association list in the order in which its keys were
  created. A row whose \<open>matchup_id\<close> is falsy (\<open>null\<close>, missing, or the number 0) is
  skipped by \<open>if (!mid) return\<close>.
\<close>

definition grouped_step ::
  "(int \<rightharpoonup> string) \<Rightarrow> (int \<times> entry list) list \<Rightarrow> matchup_row \<Rightarrow> (int \<times> entry list) list" where
  "grouped_step r2u grouped m =
     (case matchup_row.matchup_id m of
        None \<Rightarrow> grouped
      | Some mid \<Rightarrow>
          if mid = 0 then grouped
          else
            let g1 = (if map_of grouped mid = None then grouped @ [(mid, [])] else grouped)
            in map (\<lambda>(k, g). if k = mid then (k, g @ [mk_entry r2u m]) else (k, g)) g1)"

definition grouped_of :: "(int \<rightharpoonup> string) \<Rightarrow> matchup_row list \<Rightarrow> (int \<times> entry list) list" where
  "grouped_of r2u data = foldl (grouped_step r2u) [] data"

definition is_array_index :: "int \<Rightarrow> bool" where
  \<comment> \<open>The keys an object enumerates first, in ascending order: \<open>0 .. 2^32 - 2\<close>.\<close>
  "is_array_index k \<longleftrightarrow> 0 \<le> k \<and> k \<le> 4294967294"

definition object_values :: "(int \<times> 'v) list \<Rightarrow> 'v list" where
  \<comment> \<open>\<open>Object.values(obj)\<close>: array-index keys ascending, then the other keys in the
      order of their creation.\<close>
  "object_values obj =
     map snd (sort_key fst (filter (\<lambda>kv. is_array_index (fst kv)) obj)
              @ filter (\<lambda>kv. \<not> is_array_index (fst kv)) obj)"

definition make_pair :: "entry list \<Rightarrow> js_error + matchup" where
  \<comment> \<open>\<open>([a, b]) => ({ team1: a.teamName, score1: a.points, team2: b.teamName,
        score2: b.points })\<close>: \<open>a\<close> and \<open>b\<close> are the first two elements, \<open>undefined\<close> when
      the group is shorter, and reading a property of \<open>undefined\<close> throws.\<close>
  "make_pair g =
     (case g of
        a # b # _ \<Rightarrow> Inr \<lparr> team1 = teamName a, score1 = entry.points a,
                           team2 = teamName b, score2 = entry.points b \<rparr>
      | _ \<Rightarrow> Inl TypeError)"

fun map_result :: "('a \<Rightarrow> js_error + 'b) \<Rightarrow> 'a list \<Rightarrow> js_error + 'b list" where
  \<comment> \<open>\<open>xs.map(f)\<close> for a callback that may throw: the first exception ends the map.\<close>
  "map_result f [] = Inr []"
| "map_result f (x # xs) =
     (case f x of
        Inl e \<Rightarrow> Inl e
      | Inr y \<Rightarrow> (case map_result f xs of Inl e \<Rightarrow> Inl e | Inr ys \<Rightarrow> Inr (y # ys)))"

definition pairs_of :: "(int \<rightharpoonup> string) \<Rightarrow> matchup_row list \<Rightarrow> js_error + matchup list" where
  "pairs_of r2u data =
     map_result make_pair
       (filter (\<lambda>g. length g = 2) (object_values (grouped_of r2u data)))"

definition useMatchups ::
  "(string \<rightharpoonup> user_info) \<Rightarrow> roster list \<Rightarrow> matchup_row list option \<Rightarrow> js_error + matchup list" where
  \<comment> \<open>The callback of \<open>api.matchups(week).then\<close>; \<open>None\<close> is the \<open>null\<close> of a failed fetch.\<close>
  "useMatchups um rs fetched =
     (case fetched of
        None \<Rightarrow> Inr []
      | Some data \<Rightarrow> pairs_of (rosterToUser_of um rs) data)"

section \<open>Weekly Trend Aggregator\<close>

definition positive_scores :: "matchup_row list \<Rightarrow> rat list" where
  \<comment> \<open>\<open>data.map(m => m.points || 0).filter(p => p > 0)\<close>\<close>
  "positive_scores data = filter (\<lambda>p. p > 0) (map (\<lambda>m. num_or (matchup_row.points m) 0) data)"

definition history_step ::
  "(int \<Rightarrow> matchup_row list option) \<Rightarrow> int \<Rightarrow> trend_point list \<Rightarrow> trend_point list" where
  \<comment> \<open>The body of the loop. \<open>Math.max(...scores)\<close> and \<open>Math.min(...scores)\<close> are taken
      of a non-empty array only, the head and tail of the \<open>case\<close>.\<close>
  "history_step fetch w weeks =
     (case fetch w of
        None \<Rightarrow> weeks
      | Some data \<Rightarrow>
          if length data > 0 then
            (case positive_scores data of
               [] \<Rightarrow> weeks
             | s # ss \<Rightarrow>
                 weeks @ [\<lparr> week = w, high = foldl max s ss, low = foldl min s ss,
                            avg = foldl (+) 0 (s # ss) / of_nat (length (s # ss)) \<rparr>])
          else weeks)"

function fetchHistory_loop ::
  "(int \<Rightarrow> matchup_row list option) \<Rightarrow> int \<Rightarrow> int \<Rightarrow> trend_point list \<Rightarrow> trend_point list" where
  \<comment> \<open>\<open>for (let w = ...; w <= hi; w++) { ... }\<close>\<close>
  "fetchHistory_loop fetch hi w weeks =
     (if w \<le> hi then fetchHistory_loop fetch hi (w + 1) (history_step fetch w weeks)
      else weeks)"
  by pat_completeness auto
termination
  by (relation "measure (\<lambda>(fetch, hi, w, weeks). nat (hi + 1 - w))") auto

declare fetchHistory_loop.simps [simp del]

definition fetchHistory :: "(int \<Rightarrow> matchup_row list option) \<Rightarrow> int \<Rightarrow> trend_point list" where
  "fetchHistory fetch currentWeek = fetchHistory_loop fetch (min currentWeek 17) 1 []"

definition useWeeklyHistory :: "(int \<Rightarrow> matchup_row list option) \<Rightarrow> int \<Rightarrow> trend_point list" where
  \<comment> \<open>\<open>if (!currentWeek || currentWeek < 1) return\<close> leaves the initial empty history.\<close>
  "useWeeklyHistory fetch currentWeek =
     (if currentWeek = 0 \<or> currentWeek < 1 then [] else fetchHistory fetch currentWeek)"

section \<open>Award Calculator\<close>

definition award_scores :: "(int \<rightharpoonup> string) \<Rightarrow> matchup_row list \<Rightarrow> score list" where
  \<comment> \<open>\<open>matchups.map(m => ({ team: rosterToUser[m.roster_id], points: m.points || 0 }))
        .filter(t => t.points > 0)\<close>\<close>
  "award_scores r2u matchups =
     filter (\<lambda>t. score.points t > 0)
       (map (\<lambda>m. \<lparr> team = r2u (matchup_row.roster_id m),
                    score.points = num_or (matchup_row.points m) 0 \<rparr>) matchups)"

definition reduce_from_first :: "(score \<Rightarrow> score \<Rightarrow> score) \<Rightarrow> score list \<Rightarrow> score option" where
  \<comment> \<open>\<open>scores.reduce(f, scores[0])\<close>: on an empty array the initial value
      \<open>scores[0]\<close>, which is \<open>undefined\<close>, is returned and \<open>f\<close> is never called.\<close>
  "reduce_from_first f scores =
     (case scores of [] \<Rightarrow> None | s0 # _ \<Rightarrow> Some (foldl f s0 scores))"

definition top_of :: "score list \<Rightarrow> score option" where
  \<comment> \<open>\<open>(max, t) => t.points > max.points ? t : max\<close>\<close>
  "top_of scores =
     reduce_from_first (\<lambda>mx t. if score.points t > score.points mx then t else mx) scores"

definition low_of :: "score list \<Rightarrow> score option" where
  \<comment> \<open>\<open>(min, t) => t.points < min.points ? t : min\<close>\<close>
  "low_of scores =
     reduce_from_first (\<lambda>mn t. if score.points t < score.points mn then t else mn) scores"

text \<open>
  \<open>Number.prototype.toFixed(2)\<close> formats a double; it is a parameter \<open>toFixed2\<close> of the
  calculator. \<open>top\<close> and \<open>low\<close> are \<open>undefined\<close> together, exactly when \<open>scores\<close> is empty,
  and reading \<open>low.team\<close> or \<open>low.points\<close> of an \<open>undefined\<close> \<open>low\<close> throws.
\<close>

definition award_step ::
  "(rat \<Rightarrow> string) \<Rightarrow> (int \<Rightarrow> matchup_row list option) \<Rightarrow> (int \<rightharpoonup> string) \<Rightarrow> int
   \<Rightarrow> award list \<Rightarrow> js_error + award list" where
  "award_step toFixed2 fetch r2u w result =
     (case fetch w of
        None \<Rightarrow> Inr result
      | Some matchups \<Rightarrow>
          if length matchups = 0 then Inr result
          else
            let scores = award_scores r2u matchups
            in if length scores = 0 then Inr result
               else
                 (case (top_of scores, low_of scores) of
                    (Some top1, Some low1) \<Rightarrow>
                      Inr (result @
                        [\<lparr> week = w, topDawg = top1, superWeenie = low1,
                           horsesAss = \<lparr> horses_ass.name = team low1,
                                         detail = toFixed2 (score.points low1) @ '' pts'' \<rparr> \<rparr>])
                  | _ \<Rightarrow> Inl TypeError))"

function calculate_loop ::
  "(rat \<Rightarrow> string) \<Rightarrow> (int \<Rightarrow> matchup_row list option) \<Rightarrow> (int \<rightharpoonup> string) \<Rightarrow> int \<Rightarrow> int
   \<Rightarrow> award list \<Rightarrow> js_error + award list" where
  "calculate_loop toFixed2 fetch r2u hi w result =
     (if w \<le> hi then
        (case award_step toFixed2 fetch r2u w result of
           Inl e \<Rightarrow> Inl e
         | Inr result' \<Rightarrow> calculate_loop toFixed2 fetch r2u hi (w + 1) result')
      else Inr result)"
  by pat_completeness auto
termination
  by (relation "measure (\<lambda>(toFixed2, fetch, r2u, hi, w, result). nat (hi + 1 - w))") auto

declare calculate_loop.simps [simp del]

definition calculate ::
  "(rat \<Rightarrow> string) \<Rightarrow> (int \<Rightarrow> matchup_row list option) \<Rightarrow> (string \<rightharpoonup> user_info) \<Rightarrow> roster list
   \<Rightarrow> int \<Rightarrow> js_error + award list" where
  \<comment> \<open>The loop rebuilds \<open>rosterToUser\<close> from the same \<open>userMap\<close> and \<open>rosters\<close> in every
      iteration; it is built once here. The result is \<open>result.reverse()\<close>.\<close>
  "calculate toFixed2 fetch um rs currentWeek =
     (case calculate_loop toFixed2 fetch (rosterToUser_of um rs) currentWeek
             (max 1 (currentWeek - 2)) [] of
        Inl e \<Rightarrow> Inl e
      | Inr result \<Rightarrow> Inr (rev result))"

definition Awards ::
  "(rat \<Rightarrow> string) \<Rightarrow> (int \<Rightarrow> matchup_row list option) \<Rightarrow> (string \<rightharpoonup> user_info) \<Rightarrow> roster list
   \<Rightarrow> int \<Rightarrow> js_error + award list" where
  \<comment> \<open>\<open>if (currentWeek && userMap && rosters) calculate()\<close>: \<open>userMap\<close> and \<open>rosters\<close> are
      an object and an array, always truthy; otherwise the awards stay \<open>[]\<close>.\<close>
  "Awards toFixed2 fetch um rs currentWeek =
     (if currentWeek \<noteq> 0 then calculate toFixed2 fetch um rs currentWeek else Inr [])"

section \<open>The backend variant of the awards (\<open>App.jsx\<close>)\<close>

definition USE_BACKEND_API :: bool where
  "USE_BACKEND_API = True"

fun starts_with :: "string \<Rightarrow> string \<Rightarrow> bool" where
  "starts_with s [] = True"
| "starts_with [] (p # ps) = False"
| "starts_with (c # cs) (p # ps) = (c = p \<and> starts_with cs ps)"

fun str_includes :: "string \<Rightarrow> string \<Rightarrow> bool" where
  \<comment> \<open>\<open>s.includes(sub)\<close>\<close>
  "str_includes [] sub = (sub = [])"
| "str_includes (c # cs) sub = (starts_with (c # cs) sub \<or> str_includes cs sub)"

fun replace :: "string \<Rightarrow> string \<Rightarrow> string \<Rightarrow> string" where
  \<comment> \<open>\<open>s.replace(pat, rep)\<close> with a string pattern: the first occurrence only.\<close>
  "replace [] pat rep = (if pat = [] then rep else [])"
| "replace (c # cs) pat rep =
     (if starts_with (c # cs) pat then rep @ drop (length pat) (c # cs)
      else c # replace cs pat rep)"

definition horse_face :: string where
  \<comment> \<open>The emoji U+1F434 that starts both title prefixes, as its UTF-8 bytes.\<close>
  "horse_face = [CHR 0xF0, CHR 0x9F, CHR 0x90, CHR 0xB4]"

definition awards_view :: "int \<Rightarrow> backend_award list \<Rightarrow> week_awards" where
  \<comment> \<open>The object pushed for a week; \<open>find\<close> yields the first award whose title matches.\<close>
  "awards_view w weekAwards =
     (let td = find (\<lambda>a. str_includes (backend_award.title a) ''Top Dawg'') weekAwards;
          sw = find (\<lambda>a. str_includes (backend_award.title a) ''Super Weenie'') weekAwards;
          ha = find (\<lambda>a. str_includes (backend_award.title a) ''Horse'') weekAwards
      in \<lparr> week = w,
           week_awards.topDawg =
             map_option (\<lambda>a. \<lparr> award_view.team = winner a,
                                award_view.points = backend_award.detail a \<rparr>) td,
           week_awards.superWeenie =
             map_option (\<lambda>a. \<lparr> award_view.team = winner a,
                                award_view.points = backend_award.detail a \<rparr>) sw,
           week_awards.horsesAss =
             map_option
               (\<lambda>a. \<lparr> horse_view.title =
                          replace (replace (backend_award.title a)
                                     (horse_face @ '' Horse's Ass: '') [])
                            (horse_face @ '' Horses Ass: '') [],
                        horse_view.team = winner a,
                        reason = backend_award.detail a \<rparr>) ha \<rparr>)"

definition fetchAwards_step ::
  "(int \<Rightarrow> backend_award list option) \<Rightarrow> int \<Rightarrow> week_awards list \<Rightarrow> week_awards list" where
  "fetchAwards_step fetch w result =
     (if USE_BACKEND_API then
        (case fetch w of
           None \<Rightarrow> result
         | Some weekAwards \<Rightarrow>
             if length weekAwards > 0 then result @ [awards_view w weekAwards] else result)
      else result)"

function fetchAwards_loop ::
  "(int \<Rightarrow> backend_award list option) \<Rightarrow> int \<Rightarrow> int \<Rightarrow> week_awards list \<Rightarrow> week_awards list" where
  "fetchAwards_loop fetch hi w result =
     (if w \<le> hi then fetchAwards_loop fetch hi (w + 1) (fetchAwards_step fetch w result)
      else result)"
  by pat_completeness auto
termination
  by (relation "measure (\<lambda>(fetch, hi, w, result). nat (hi + 1 - w))") auto

declare fetchAwards_loop.simps [simp del]

definition fetchAwards :: "(int \<Rightarrow> backend_award list option) \<Rightarrow> int \<Rightarrow> week_awards list" where
  "fetchAwards fetch currentWeek =
     rev (fetchAwards_loop fetch currentWeek (max 1 (currentWeek - 2)) [])"

definition useAwards :: "(int \<Rightarrow> backend_award list option) \<Rightarrow> int \<Rightarrow> week_awards list" where
  \<comment> \<open>\<open>if (!currentWeek) return\<close> leaves the initial empty list.\<close>
  "useAwards fetch currentWeek =
     (if currentWeek = 0 then [] else fetchAwards fetch currentWeek)"

section \<open>League snapshot and refresh\<close>

text \<open>
  The state of \<open>useLeagueData\<close>. The four fetches of a refresh are joined by
  \<open>Promise.all\<close>; each yields its JSON value or \<open>null\<close> (\<open>None\<close>) when it failed. A refresh
  publishes two states: the one of \<open>setData(d => ({ ...d, loading: true, error: null }))\<close>
  and the one set after the fetches, by the \<open>try\<close> block or by its \<open>catch\<close>.
\<close>

record 'z app_data =
  loading :: bool
  error :: "string option"
  nflState :: "nfl_state option"
  standings :: "('z backend_team + ranked_team) list"
  currentWeek :: int
  userMap :: "string \<rightharpoonup> user_info"
  rosters :: "roster list"

record 'l league_data =
  loading :: bool
  error :: "string option"
  nflState :: "nfl_state option"
  league :: "'l option"
  users :: "user list"
  rosters :: "roster list"
  standings :: "ranked_team list"
  currentWeek :: int
  userMap :: "string \<rightharpoonup> user_info"

fun message :: "js_error \<Rightarrow> string" where
  "message (Error m) = m"
| "message TypeError = ''TypeError''"

definition refresh_try ::
  "nfl_state option \<Rightarrow> 'l option \<Rightarrow> user list option \<Rightarrow> roster list option
   \<Rightarrow> js_error + 'l league_data" where
  "refresh_try nflState_r league_r users_r rosters_r =
     (case (nflState_r, users_r, rosters_r) of
        (Some nfl, Some us, Some rs) \<Rightarrow>
          let um = userMap_of us;
              st = standings_of um rs
          in Inr \<lparr> loading = False, error = None, nflState = Some nfl, league = league_r,
                   users = us, rosters = rs, standings = st,
                   currentWeek = int_or (nfl_state.week nfl) 1, userMap = um \<rparr>
      | _ \<Rightarrow> Inl (Error ''Failed to fetch league data''))"

definition refresh ::
  "nfl_state option \<Rightarrow> 'l option \<Rightarrow> user list option \<Rightarrow> roster list option
   \<Rightarrow> 'l league_data \<Rightarrow> 'l league_data list" where
  "refresh nflState_r league_r users_r rosters_r d =
     (let d1 = d\<lparr>loading := True, error := None\<rparr>
      in [d1,
          (case refresh_try nflState_r league_r users_r rosters_r of
             Inr snapshot \<Rightarrow> snapshot
           | Inl e \<Rightarrow> d1\<lparr>loading := False, error := Some (message e)\<rparr>)])"

text \<open>
  The refresh of \<open>App.jsx\<close>. With \<open>USE_BACKEND_API\<close> it joins the fetches of the backend
  state and standings, otherwise those of the upstream state, users and rosters; the
  results of the fetches that are not issued are not read.
\<close>

definition refresh_App_try ::
  "nfl_state option \<Rightarrow> 'z backend_standing_scheme list option
   \<Rightarrow> nfl_state option \<Rightarrow> user list option \<Rightarrow> roster list option
   \<Rightarrow> js_error + 'z app_data" where
  "refresh_App_try state_r standingsData_r nflState_r users_r rosters_r =
     (if USE_BACKEND_API then
        (case (state_r, standingsData_r) of
           (Some state, Some standingsData) \<Rightarrow>
             Inr \<lparr> app_data.loading = False, app_data.error = None,
                   app_data.nflState = Some state,
                   app_data.standings =
                     map (\<lambda>(i, s). Inl \<lparr> source = s, backend_team.rank = i + 1,
                                          backend_team.pf = points_for s \<rparr>)
                       (enumerate 0 standingsData),
                   app_data.currentWeek = int_or (nfl_state.week state) 1,
                   app_data.userMap = Map.empty, app_data.rosters = [] \<rparr>
         | _ \<Rightarrow> Inl (Error ''Failed to connect to Python Brain''))
      else
        (case (nflState_r, users_r, rosters_r) of
           (Some nfl, Some us, Some rs) \<Rightarrow>
             let um = userMap_of us;
                 st = standings_of um rs
             in Inr \<lparr> app_data.loading = False, app_data.error = None,
                      app_data.nflState = Some nfl, app_data.standings = map Inr st,
                      app_data.currentWeek = int_or (nfl_state.week nfl) 1,
                      app_data.userMap = um, app_data.rosters = rs \<rparr>
         | _ \<Rightarrow> Inl (Error ''Failed to fetch league data'')))"

definition refresh_App ::
  "nfl_state option \<Rightarrow> 'z backend_standing_scheme list option
   \<Rightarrow> nfl_state option \<Rightarrow> user list option \<Rightarrow> roster list option
   \<Rightarrow> 'z app_data \<Rightarrow> 'z app_data list" where
  "refresh_App state_r standingsData_r nflState_r users_r rosters_r d =
     (let d1 = d\<lparr>app_data.loading := True, app_data.error := None\<rparr>
      in [d1,
          (case refresh_App_try state_r standingsData_r nflState_r users_r rosters_r of
             Inr snapshot \<Rightarrow> snapshot
           | Inl e \<Rightarrow> d1\<lparr>app_data.loading := False, app_data.error := Some (message e)\<rparr>)])"

section \<open>Order of the standings\<close>

definition ranks_before :: "'a team_scheme \<Rightarrow> 'b team_scheme \<Rightarrow> bool" where
  "ranks_before a b \<longleftrightarrow> wins a > wins b \<or> (wins a = wins b \<and> pf a \<ge> pf b)"

section \<open>Notions used to state and prove the properties of the pairer\<close>

text \<open>
  The pairing identifiers that pass the guard, the rows carrying an identifier, the order
  in which an object enumerates its keys, and the identifiers carried by exactly two rows.
\<close>

definition pairing_ids :: "matchup_row list \<Rightarrow> int list" where
  "pairing_ids data =
     List.map_filter
       (\<lambda>m. case matchup_row.matchup_id m of
              None \<Rightarrow> None
            | Some k \<Rightarrow> if k = 0 then None else Some k) data"

definition rows_with :: "int \<Rightarrow> matchup_row list \<Rightarrow> matchup_row list" where
  "rows_with k data = filter (\<lambda>m. matchup_row.matchup_id m = Some k) data"

definition first_seen :: "int list \<Rightarrow> int list" where
  "first_seen ks = rev (remdups (rev ks))"

definition key_order :: "int list \<Rightarrow> int list" where
  "key_order ks = sort (filter is_array_index ks) @ filter (\<lambda>k. \<not> is_array_index k) ks"

definition paired_ids :: "matchup_row list \<Rightarrow> int list" where
  "paired_ids data =
     filter (\<lambda>k. length (rows_with k data) = 2) (key_order (first_seen (pairing_ids data)))"

definition zero_as_null :: "matchup_row \<Rightarrow> matchup_row" where
  "zero_as_null m =
     (if matchup_row.matchup_id m = Some 0 then m\<lparr>matchup_row.matchup_id := None\<rparr> else m)"

section \<open>Notions used to state and prove the properties of the weekly loops\<close>

text \<open>
  The qualifying scores of a week as each loop computes them (none when the fetch of the
  week failed), the trend point and the award of a week, the element a left-to-right
  reduction with a strict comparison selects (the first one whose key is greatest), and
  the award \<open>find\<close> selects from a backend feed (the first one whose title contains a
  given text, none when no title does).
\<close>

definition week_scores :: "(int \<Rightarrow> matchup_row list option) \<Rightarrow> int \<Rightarrow> rat list" where
  "week_scores fetch w = (case fetch w of None \<Rightarrow> [] | Some data \<Rightarrow> positive_scores data)"

definition trend_of :: "int \<Rightarrow> rat list \<Rightarrow> trend_point" where
  "trend_of w scores =
     \<lparr> week = w, high = Max (set scores), low = Min (set scores),
       avg = sum_list scores / of_nat (length scores) \<rparr>"

definition week_has_awards :: "(int \<Rightarrow> backend_award list option) \<Rightarrow> int \<Rightarrow> bool" where
  "week_has_awards fetch w = (case fetch w of None \<Rightarrow> False | Some weekAwards \<Rightarrow> weekAwards \<noteq> [])"

definition first_titled :: "string \<Rightarrow> backend_award list \<Rightarrow> backend_award option \<Rightarrow> bool" where
  "first_titled sub weekAwards r \<longleftrightarrow>
     (case r of
        None \<Rightarrow> \<forall>a\<in>set weekAwards. \<not> str_includes (backend_award.title a) sub
      | Some a \<Rightarrow>
          \<exists>i<length weekAwards. a = weekAwards ! i
             \<and> str_includes (backend_award.title a) sub
             \<and> (\<forall>j<i. \<not> str_includes (backend_award.title (weekAwards ! j)) sub))"

definition week_award_scores ::
  "(int \<Rightarrow> matchup_row list option) \<Rightarrow> (int \<rightharpoonup> string) \<Rightarrow> int \<Rightarrow> score list" where
  "week_award_scores fetch r2u w =
     (case fetch w of None \<Rightarrow> [] | Some matchups \<Rightarrow> award_scores r2u matchups)"

definition first_best :: "('a \<Rightarrow> rat) \<Rightarrow> 'a list \<Rightarrow> 'a \<Rightarrow> bool" where
  "first_best key xs x \<longleftrightarrow>
     (\<exists>i<length xs. x = xs ! i
        \<and> (\<forall>j<length xs. key (xs ! j) \<le> key x)
        \<and> (\<forall>j<i. key (xs ! j) < key x))"

definition is_award_of :: "(rat \<Rightarrow> string) \<Rightarrow> int \<Rightarrow> score list \<Rightarrow> award \<Rightarrow> bool" where
  "is_award_of toFixed2 w scores a \<longleftrightarrow>
     week a = w
     \<and> top_of scores = Some (topDawg a)
     \<and> low_of scores = Some (superWeenie a)
     \<and> horsesAss a = \<lparr> horses_ass.name = team (superWeenie a),
                        detail = toFixed2 (score.points (superWeenie a)) @ '' pts'' \<rparr>"

section \<open>Properties of the sort\<close>

lemma mset_insert_sorted: "mset (insert_sorted cmp x ys) = add_mset x (mset ys)"
  by (induction ys) auto

lemma mset_array_sort: "mset (array_sort cmp xs) = mset xs"
  by (induction xs) (auto simp: mset_insert_sorted)

lemma set_insert_sorted: "set (insert_sorted cmp x ys) = insert x (set ys)"
  by (induction ys) auto

lemma length_array_sort: "length (array_sort cmp xs) = length xs"
  using mset_array_sort [of cmp xs] by (metis size_mset)

lemma compareFn_pos: "compareFn x y > 0 \<longleftrightarrow> \<not> ranks_before x y"
  by (auto simp: compareFn_def ranks_before_def)

lemma ranks_before_trans: "ranks_before a b \<Longrightarrow> ranks_before b c \<Longrightarrow> ranks_before a c"
  by (auto simp: ranks_before_def)

lemma ranks_before_total: "\<not> ranks_before a b \<Longrightarrow> ranks_before b a"
  by (auto simp: ranks_before_def)

lemma sorted_insert_sorted:
  "sorted_wrt ranks_before ys \<Longrightarrow> sorted_wrt ranks_before (insert_sorted compareFn x ys)"
proof (induction ys)
  case Nil
  then show ?case by simp
next
  case (Cons y ys)
  show ?case
  proof (cases "compareFn x y > 0")
    case True
    then have "ranks_before y x"
      using compareFn_pos ranks_before_total by blast
    with Cons True show ?thesis
      by (auto simp: set_insert_sorted)
  next
    case False
    then have xy: "ranks_before x y"
      using compareFn_pos by blast
    have "\<forall>z\<in>set ys. ranks_before x z"
      using Cons.prems xy ranks_before_trans by auto
    with Cons.prems xy False show ?thesis by simp
  qed
qed

lemma sorted_array_sort: "sorted_wrt ranks_before (array_sort compareFn xs)"
  by (induction xs) (auto simp: sorted_insert_sorted)

lemma filter_insert_sorted_other:
  "\<not> P x \<Longrightarrow> filter P (insert_sorted cmp x ys) = filter P ys"
  by (induction ys) auto

lemma filter_insert_sorted_same:
  "P x \<Longrightarrow> (\<And>y. P y \<Longrightarrow> \<not> cmp x y > 0) \<Longrightarrow>
   filter P (insert_sorted cmp x ys) = x # filter P ys"
  by (induction ys) auto

lemma array_sort_stable:
  "filter (\<lambda>t. wins t = w \<and> pf t = p) (array_sort compareFn xs)
   = filter (\<lambda>t. wins t = w \<and> pf t = p) xs"
proof (induction xs)
  case Nil
  then show ?case by simp
next
  case (Cons x xs)
  show ?case
  proof (cases "wins x = w \<and> pf x = p")
    case True
    have "\<And>y. wins y = w \<and> pf y = p \<Longrightarrow> \<not> compareFn x y > 0"
      using True by (simp add: compareFn_def)
    with True Cons show ?thesis
      by (simp add: filter_insert_sorted_same [where P = "\<lambda>t. wins t = w \<and> pf t = p"])
  next
    case False
    with Cons show ?thesis
      by (simp add: filter_insert_sorted_other [where P = "\<lambda>t. wins t = w \<and> pf t = p"])
  qed
qed

lemma truncate_with_rank: "team.truncate (with_rank i t) = t"
  by (simp add: with_rank_def team.truncate_def)

lemma map_truncate_standings:
  "map team.truncate (standings_of um rs) = array_sort compareFn (map (standings_row um) rs)"
proof -
  have "map team.truncate (map (\<lambda>(i, t). with_rank i t) (enumerate n xs)) = xs" for n xs
    by (induction xs arbitrary: n) (auto simp: truncate_with_rank)
  then show ?thesis by (simp add: standings_of_def)
qed

lemma map_rank_enumerate:
  "map rank (map (\<lambda>(i, t). with_rank i t) (enumerate n xs)) = [Suc n ..< Suc n + length xs]"
proof (induction xs arbitrary: n)
  case Nil
  then show ?case by simp
next
  case (Cons x xs)
  then show ?case
    by (simp add: with_rank_def upt_conv_Cons del: upt_Suc)
qed

lemma standings_nth:
  assumes "i < length rs"
  shows "wins (standings_of um rs ! i) = wins (array_sort compareFn (map (standings_row um) rs) ! i)"
    and "pf (standings_of um rs ! i) = pf (array_sort compareFn (map (standings_row um) rs) ! i)"
  using assms
  by (simp_all add: standings_of_def length_array_sort nth_enumerate_eq with_rank_def)

section \<open>Claims about the Standings Ranker\<close>

text \<open>
  C1. For every list of rosters the ranked standings have the length of the input, the
  ranks are 1, 2, ..., N in output order, and for positions \<open>i < j\<close> either the wins at
  \<open>i\<close> are greater, or the wins are equal and the points-for at \<open>i\<close> are at least those at
  \<open>j\<close>. The rows are the rows built from the rosters, and the points-for of a row are
  \<open>fpts + fpts_decimal / 100\<close> (each defaulting to 0), never a rounded value.
\<close>

theorem standings_ranked:
  "length (standings_of um rs) = length rs
   \<and> map rank (standings_of um rs) = [1 ..< Suc (length rs)]
   \<and> mset (map team.truncate (standings_of um rs)) = mset (map (standings_row um) rs)
   \<and> (\<forall>r \<in> set rs.
         pf (standings_row um r)
         = num_or (Option.bind (settings r) fpts) 0
           + num_or (Option.bind (settings r) fpts_decimal) 0 / 100)
   \<and> (\<forall>i j. i < j \<and> j < length rs \<longrightarrow>
         wins (standings_of um rs ! i) > wins (standings_of um rs ! j)
         \<or> (wins (standings_of um rs ! i) = wins (standings_of um rs ! j)
            \<and> pf (standings_of um rs ! i) \<ge> pf (standings_of um rs ! j)))"
proof -
  let ?S = "array_sort compareFn (map (standings_row um) rs)"
  have len: "length (standings_of um rs) = length rs"
    by (simp add: standings_of_def length_array_sort)
  have ranks: "map rank (standings_of um rs) = [1 ..< Suc (length rs)]"
    using map_rank_enumerate [of 0 ?S]
    by (simp add: standings_of_def length_array_sort)
  have perm: "mset (map team.truncate (standings_of um rs)) = mset (map (standings_row um) rs)"
    by (simp add: map_truncate_standings mset_array_sort)
  have pts: "\<forall>r \<in> set rs.
         pf (standings_row um r)
         = num_or (Option.bind (settings r) fpts) 0
           + num_or (Option.bind (settings r) fpts_decimal) 0 / 100"
    by (simp add: standings_row_def)
  have ord: "wins (standings_of um rs ! i) > wins (standings_of um rs ! j)
         \<or> (wins (standings_of um rs ! i) = wins (standings_of um rs ! j)
            \<and> pf (standings_of um rs ! i) \<ge> pf (standings_of um rs ! j))"
    if "i < j" "j < length rs" for i j
  proof -
    have "ranks_before (?S ! i) (?S ! j)"
      using sorted_array_sort [of "map (standings_row um) rs"] that
      by (simp add: sorted_wrt_iff_nth_less length_array_sort)
    moreover have "i < length rs"
      using that by simp
    ultimately show ?thesis
      using that by (simp add: standings_nth ranks_before_def)
  qed
  from len ranks perm pts ord show ?thesis by blast
qed

theorem standings_ranked_witness:
  "standings_of Map.empty
     [\<lparr>roster.roster_id = 1, owner_id = None,
        settings = Some \<lparr>roster_settings.wins = Some 2, roster_settings.losses = Some 1, fpts = Some 300,
                         fpts_decimal = Some 25, fpts_against = None,
                         fpts_against_decimal = None\<rparr>, metadata = None\<rparr>,
      \<lparr>roster.roster_id = 2, owner_id = None,
        settings = Some \<lparr>roster_settings.wins = Some 3, roster_settings.losses = Some 0, fpts = Some 250,
                         fpts_decimal = Some 50, fpts_against = None,
                         fpts_against_decimal = None\<rparr>, metadata = None\<rparr>,
      \<lparr>roster.roster_id = 3, owner_id = None,
        settings = Some \<lparr>roster_settings.wins = Some 2, roster_settings.losses = Some 1, fpts = Some 300,
                         fpts_decimal = Some 75, fpts_against = None,
                         fpts_against_decimal = None\<rparr>, metadata = None\<rparr>]
   = [\<lparr>user_info.name = ''Team 2'', avatar = None, wins = 3, losses = 0, pf = 501 / 2, pa = 0,
        rosterId = 2, ownerId = None, streak = [], rank = 1\<rparr>,
      \<lparr>user_info.name = ''Team 3'', avatar = None, wins = 2, losses = 1, pf = 1203 / 4, pa = 0,
        rosterId = 3, ownerId = None, streak = [], rank = 2\<rparr>,
      \<lparr>user_info.name = ''Team 1'', avatar = None, wins = 2, losses = 1, pf = 1201 / 4, pa = 0,
        rosterId = 1, ownerId = None, streak = [], rank = 3\<rparr>]
   \<and> (0::nat) < 1 \<and> (1::nat) < 3 \<and> (3::rat) > 2
   \<and> (1::nat) < 2 \<and> (2::nat) < 3 \<and> (2::rat) = 2 \<and> (1203 / 4 :: rat) \<ge> 1201 / 4"
  using standings_ranked [of Map.empty
     "[\<lparr>roster.roster_id = 1, owner_id = None,
        settings = Some \<lparr>roster_settings.wins = Some 2, roster_settings.losses = Some 1, fpts = Some 300,
                         fpts_decimal = Some 25, fpts_against = None,
                         fpts_against_decimal = None\<rparr>, metadata = None\<rparr>,
      \<lparr>roster.roster_id = 2, owner_id = None,
        settings = Some \<lparr>roster_settings.wins = Some 3, roster_settings.losses = Some 0, fpts = Some 250,
                         fpts_decimal = Some 50, fpts_against = None,
                         fpts_against_decimal = None\<rparr>, metadata = None\<rparr>,
      \<lparr>roster.roster_id = 3, owner_id = None,
        settings = Some \<lparr>roster_settings.wins = Some 2, roster_settings.losses = Some 1, fpts = Some 300,
                         fpts_decimal = Some 75, fpts_against = None,
                         fpts_against_decimal = None\<rparr>, metadata = None\<rparr>]"]
  by (simp add: standings_of_def standings_row_def resolved_name_def prop_key_def
      str_or_def num_or_def compareFn_def with_rank_def js_int_string_def
      nat_digits.simps digit_def enumerate_eq_zip upt_rec)

text \<open>
  C4. The sort is stable: the rows with any given wins and points-for appear in the
  ranked standings in the order in which their rosters appear in the input.
\<close>

theorem standings_stable:
  "filter (\<lambda>t. wins t = w \<and> pf t = p) (map team.truncate (standings_of um rs))
   = filter (\<lambda>t. wins t = w \<and> pf t = p) (map (standings_row um) rs)"
  by (simp add: map_truncate_standings array_sort_stable)

theorem standings_stable_witness:
  "map rosterId
     (filter (\<lambda>t. wins t = 2 \<and> pf t = 300)
        (map team.truncate (standings_of Map.empty
           [\<lparr>roster.roster_id = 7, owner_id = None,
              settings = Some \<lparr>roster_settings.wins = Some 2, roster_settings.losses = None,
                               fpts = Some 300, fpts_decimal = None, fpts_against = None,
                               fpts_against_decimal = None\<rparr>, metadata = None\<rparr>,
            \<lparr>roster.roster_id = 4, owner_id = None,
              settings = Some \<lparr>roster_settings.wins = Some 5, roster_settings.losses = None,
                               fpts = Some 100, fpts_decimal = None, fpts_against = None,
                               fpts_against_decimal = None\<rparr>, metadata = None\<rparr>,
            \<lparr>roster.roster_id = 3, owner_id = None,
              settings = Some \<lparr>roster_settings.wins = Some 2, roster_settings.losses = None,
                               fpts = Some 299, fpts_decimal = Some 100, fpts_against = None,
                               fpts_against_decimal = None\<rparr>, metadata = None\<rparr>])))
   = [7, 3]"
  using standings_stable [of 2 300 Map.empty
           "[\<lparr>roster.roster_id = 7, owner_id = None,
              settings = Some \<lparr>roster_settings.wins = Some 2, roster_settings.losses = None,
                               fpts = Some 300, fpts_decimal = None, fpts_against = None,
                               fpts_against_decimal = None\<rparr>, metadata = None\<rparr>,
            \<lparr>roster.roster_id = 4, owner_id = None,
              settings = Some \<lparr>roster_settings.wins = Some 5, roster_settings.losses = None,
                               fpts = Some 100, fpts_decimal = None, fpts_against = None,
                               fpts_against_decimal = None\<rparr>, metadata = None\<rparr>,
            \<lparr>roster.roster_id = 3, owner_id = None,
              settings = Some \<lparr>roster_settings.wins = Some 2, roster_settings.losses = None,
                               fpts = Some 299, fpts_decimal = Some 100, fpts_against = None,
                               fpts_against_decimal = None\<rparr>, metadata = None\<rparr>]"]
  by (simp add: standings_row_def num_or_def)

section \<open>Properties of the grouping\<close>

lemma pairing_ids_Nil [simp]: "pairing_ids [] = []"
  by (simp add: pairing_ids_def)

lemma pairing_ids_append: "pairing_ids (xs @ ys) = pairing_ids xs @ pairing_ids ys"
  by (simp add: pairing_ids_def map_filter_def)

lemma pairing_ids_single:
  "pairing_ids [m] =
     (case matchup_row.matchup_id m of None \<Rightarrow> [] | Some k \<Rightarrow> if k = 0 then [] else [k])"
  by (simp add: pairing_ids_def map_filter_def split: option.splits)

lemma set_pairing_ids:
  "k \<in> set (pairing_ids data) \<longleftrightarrow> k \<noteq> 0 \<and> (\<exists>m \<in> set data. matchup_row.matchup_id m = Some k)"
proof (induction data)
  case Nil
  then show ?case by simp
next
  case (Cons m ms)
  have "pairing_ids (m # ms) = pairing_ids [m] @ pairing_ids ms"
    using pairing_ids_append [of "[m]" ms] by simp
  with Cons show ?case
    by (auto simp: pairing_ids_single split: option.splits if_splits)
qed

lemma rows_with_empty: "k \<notin> set (pairing_ids data) \<Longrightarrow> k \<noteq> 0 \<Longrightarrow> rows_with k data = []"
  by (auto simp: set_pairing_ids rows_with_def filter_empty_conv)

lemma first_seen_snoc:
  "first_seen (ks @ [k]) = (if k \<in> set ks then first_seen ks else first_seen ks @ [k])"
  by (simp add: first_seen_def)

lemma set_first_seen [simp]: "set (first_seen ks) = set ks"
  by (simp add: first_seen_def)

lemma distinct_first_seen [simp]: "distinct (first_seen ks)"
  by (simp add: first_seen_def)

lemma grouped_of_snoc: "grouped_of r2u (xs @ [x]) = grouped_step r2u (grouped_of r2u xs) x"
  by (simp add: grouped_of_def)

lemma map_of_keyed: "map_of (map (\<lambda>k. (k, f k)) ks) k = None \<longleftrightarrow> k \<notin> set ks"
  by (induction ks) auto

lemma grouped_of_closed:
  "grouped_of r2u data
   = map (\<lambda>k. (k, map (mk_entry r2u) (rows_with k data))) (first_seen (pairing_ids data))"
proof (induction data rule: rev_induct)
  case Nil
  then show ?case by (simp add: grouped_of_def first_seen_def)
next
  case (snoc x xs)
  let ?ks = "first_seen (pairing_ids xs)"
  show ?case
  proof (cases "matchup_row.matchup_id x")
    case None
    then have "rows_with k (xs @ [x]) = rows_with k xs" for k
      by (simp add: rows_with_def)
    with None snoc show ?thesis
      by (simp add: grouped_of_snoc grouped_step_def pairing_ids_append pairing_ids_single)
  next
    case (Some mid)
    show ?thesis
    proof (cases "mid = 0")
      case True
      have "rows_with k (xs @ [x]) = rows_with k xs" if "k \<in> set ?ks" for k
        using that Some True by (auto simp: rows_with_def set_pairing_ids)
      with Some True snoc show ?thesis
        by (simp add: grouped_of_snoc grouped_step_def pairing_ids_append pairing_ids_single)
    next
      case False
      have rw: "rows_with k (xs @ [x]) = rows_with k xs @ (if k = mid then [x] else [])" for k
        using Some by (simp add: rows_with_def)
      show ?thesis
      proof (cases "mid \<in> set (pairing_ids xs)")
        case True
        with Some False snoc show ?thesis
          by (simp add: grouped_of_snoc grouped_step_def pairing_ids_append pairing_ids_single
              first_seen_snoc map_of_keyed rw)
      next
        case nin: False
        then have "rows_with mid xs = []"
          using False by (rule rows_with_empty)
        with Some False nin snoc show ?thesis
          by (simp add: grouped_of_snoc grouped_step_def pairing_ids_append pairing_ids_single
              first_seen_snoc map_of_keyed rw)
      qed
    qed
  qed
qed

lemma insort_keyed:
  "insort_key fst (k, f k) (map (\<lambda>k. (k, f k)) ks) = map (\<lambda>k. (k, f k)) (insort k ks)"
  by (induction ks) auto

lemma sort_keyed: "sort_key fst (map (\<lambda>k. (k, f k)) ks) = map (\<lambda>k. (k, f k)) (sort ks)"
  by (induction ks) (auto simp: insort_keyed)

lemma object_values_keyed:
  "object_values (map (\<lambda>k. (k, f k)) ks) = map f (key_order ks)"
  by (simp add: object_values_def key_order_def filter_map comp_def sort_keyed)

lemma map_result_map: "map_result f (map g xs) = map_result (\<lambda>x. f (g x)) xs"
  by (induction xs) (auto split: sum.splits)

lemma pairs_of_closed:
  "pairs_of r2u data
   = map_result (\<lambda>k. make_pair (map (mk_entry r2u) (rows_with k data))) (paired_ids data)"
  by (simp add: pairs_of_def grouped_of_closed object_values_keyed filter_map comp_def
      map_result_map paired_ids_def)

lemma map_result_all2:
  "(\<And>x. x \<in> set xs \<Longrightarrow> \<exists>y. f x = Inr y) \<Longrightarrow>
   \<exists>ys. map_result f xs = Inr ys \<and> list_all2 (\<lambda>x y. f x = Inr y) xs ys"
proof (induction xs)
  case Nil
  then show ?case by simp
next
  case (Cons x xs)
  from Cons.prems obtain y where y: "f x = Inr y" by auto
  from Cons obtain ys where "map_result f xs = Inr ys" "list_all2 (\<lambda>x y. f x = Inr y) xs ys"
    by auto
  with y show ?case by simp
qed

lemma make_pair_two:
  "make_pair (map (mk_entry r2u) [a, b])
   = Inr \<lparr> team1 = teamName (mk_entry r2u a), score1 = num_or (matchup_row.points a) 0,
           team2 = teamName (mk_entry r2u b), score2 = num_or (matchup_row.points b) 0 \<rparr>"
  by (simp add: make_pair_def mk_entry_def)

lemma length_two: "length xs = 2 \<longleftrightarrow> (\<exists>a b. xs = [a, b])"
  by (cases xs; cases "tl xs"; cases "tl (tl xs)") auto

lemma set_paired_ids:
  "set (paired_ids data) = {k. k \<noteq> 0 \<and> length (rows_with k data) = 2}"
proof -
  have "k \<in> set (pairing_ids data)" if "k \<noteq> 0" "length (rows_with k data) = 2" for k
    using that rows_with_empty [of k data] by (cases "k \<in> set (pairing_ids data)") simp_all
  then show ?thesis
    by (auto simp: paired_ids_def key_order_def set_pairing_ids)
qed

lemma distinct_key_order: "distinct ks \<Longrightarrow> distinct (key_order ks)"
  by (auto simp: key_order_def)

lemma distinct_paired_ids: "distinct (paired_ids data)"
  by (simp add: paired_ids_def distinct_key_order)

lemma pairs_of_result:
  "\<exists>ps. pairs_of r2u data = Inr ps
        \<and> list_all2 (\<lambda>k p. \<exists>a b. rows_with k data = [a, b]
              \<and> p = \<lparr> team1 = teamName (mk_entry r2u a),
                      score1 = num_or (matchup_row.points a) 0,
                      team2 = teamName (mk_entry r2u b),
                      score2 = num_or (matchup_row.points b) 0 \<rparr>) (paired_ids data) ps"
proof -
  let ?f = "\<lambda>k. make_pair (map (mk_entry r2u) (rows_with k data))"
  have two: "\<exists>a b. rows_with k data = [a, b]" if "k \<in> set (paired_ids data)" for k
    using that by (simp add: set_paired_ids length_two)
  then have "\<exists>y. ?f k = Inr y" if "k \<in> set (paired_ids data)" for k
    using that make_pair_two by (metis)
  then obtain ps where ps: "map_result ?f (paired_ids data) = Inr ps"
    and all2: "list_all2 (\<lambda>k p. ?f k = Inr p) (paired_ids data) ps"
    using map_result_all2 [of "paired_ids data" ?f] by blast
  have "list_all2 (\<lambda>k p. \<exists>a b. rows_with k data = [a, b]
              \<and> p = \<lparr> team1 = teamName (mk_entry r2u a),
                      score1 = num_or (matchup_row.points a) 0,
                      team2 = teamName (mk_entry r2u b),
                      score2 = num_or (matchup_row.points b) 0 \<rparr>) (paired_ids data) ps"
  proof (rule list.rel_mono_strong [OF all2])
    fix k p
    assume k: "k \<in> set (paired_ids data)" and "?f k = Inr p"
    with two [OF k] show "\<exists>a b. rows_with k data = [a, b]
              \<and> p = \<lparr> team1 = teamName (mk_entry r2u a),
                      score1 = num_or (matchup_row.points a) 0,
                      team2 = teamName (mk_entry r2u b),
                      score2 = num_or (matchup_row.points b) 0 \<rparr>"
      using make_pair_two by (metis sum.inject(2))
  qed
  with ps show ?thesis by (auto simp: pairs_of_closed)
qed

lemma count_pairing_ids:
  "k \<noteq> 0 \<Longrightarrow> count_list (pairing_ids data) k = length (rows_with k data)"
proof (induction data)
  case Nil
  then show ?case by (simp add: rows_with_def)
next
  case (Cons m ms)
  have "pairing_ids (m # ms) = pairing_ids [m] @ pairing_ids ms"
    using pairing_ids_append [of "[m]" ms] by simp
  with Cons show ?case
    by (auto simp: pairing_ids_single rows_with_def split: option.splits)
qed

lemma length_key_order: "length (key_order ks) = length ks"
  by (simp add: key_order_def sum_length_filter_compl)

lemma length_first_seen: "length (first_seen ks) = card (set ks)"
  by (simp add: first_seen_def length_remdups_card_conv)

lemma nonzero_pairing_ids: "k \<in> set (pairing_ids data) \<Longrightarrow> k \<noteq> 0"
  by (simp add: set_pairing_ids)

lemma map_result_cong_set:
  "(\<And>x. x \<in> set xs \<Longrightarrow> f x = g x) \<Longrightarrow> map_result f xs = map_result g xs"
  by (induction xs) (auto split: sum.splits)

lemma pairing_ids_filter:
  "pairing_ids (filter (\<lambda>m. R (matchup_row.matchup_id m)) data)
   = filter (\<lambda>k. R (Some k)) (pairing_ids data)"
proof (induction data)
  case Nil
  then show ?case by simp
next
  case (Cons m ms)
  have "pairing_ids (m # xs) = pairing_ids [m] @ pairing_ids xs" for xs
    using pairing_ids_append [of "[m]" xs] by simp
  with Cons show ?case
    by (auto simp: pairing_ids_single split: option.splits)
qed

lemma rows_with_filter:
  "rows_with k (filter (\<lambda>m. R (matchup_row.matchup_id m)) data)
   = (if R (Some k) then rows_with k data else [])"
  by (auto simp: rows_with_def filter_empty_conv intro: filter_cong)

lemma first_seen_filter: "first_seen (filter P ks) = filter P (first_seen ks)"
  by (simp add: first_seen_def rev_filter remdups_filter)

lemma key_order_filter: "key_order (filter P ks) = filter P (key_order ks)"
proof -
  have "filter Q (filter P ks) = filter P (filter Q ks)" for Q
    by (auto intro: filter_cong)
  then show ?thesis
    by (simp add: key_order_def filter_sort)
qed

lemma grouped_of_filter:
  assumes "\<And>k. k \<noteq> 0 \<Longrightarrow> R (Some k)"
  shows "grouped_of r2u (filter (\<lambda>m. R (matchup_row.matchup_id m)) data) = grouped_of r2u data"
proof -
  have "filter (\<lambda>k. R (Some k)) (pairing_ids data) = pairing_ids data"
    using assms nonzero_pairing_ids by (auto simp: filter_id_conv)
  moreover have "rows_with k (filter (\<lambda>m. R (matchup_row.matchup_id m)) data) = rows_with k data"
    if "k \<in> set (pairing_ids data)" for k
    using that assms nonzero_pairing_ids by (simp add: rows_with_filter)
  ultimately show ?thesis
    by (simp add: grouped_of_closed pairing_ids_filter)
qed

lemma paired_ids_filter:
  assumes "\<And>k. k \<noteq> 0 \<Longrightarrow> length (rows_with k data) = 2 \<Longrightarrow> R (Some k)"
  shows "paired_ids (filter (\<lambda>m. R (matchup_row.matchup_id m)) data) = paired_ids data"
proof -
  let ?ks = "key_order (first_seen (pairing_ids data))"
  have "set ?ks = set (pairing_ids data)"
    by (auto simp: key_order_def)
  then have "(R (Some k) \<and> length (if R (Some k) then rows_with k data else []) = 2)
             = (length (rows_with k data) = 2)" if "k \<in> set ?ks" for k
    using that assms nonzero_pairing_ids by auto
  then have "filter (\<lambda>k. R (Some k) \<and> length (if R (Some k) then rows_with k data else []) = 2) ?ks
        = filter (\<lambda>k. length (rows_with k data) = 2) ?ks"
    by (auto intro: filter_cong)
  then show ?thesis
    by (simp add: paired_ids_def pairing_ids_filter first_seen_filter key_order_filter
        rows_with_filter)
qed

lemma pairs_of_filter:
  assumes "\<And>k. k \<noteq> 0 \<Longrightarrow> length (rows_with k data) = 2 \<Longrightarrow> R (Some k)"
  shows "pairs_of r2u (filter (\<lambda>m. R (matchup_row.matchup_id m)) data) = pairs_of r2u data"
proof -
  let ?data' = "filter (\<lambda>m. R (matchup_row.matchup_id m)) data"
  have rows: "rows_with k ?data' = rows_with k data" if "k \<in> set (paired_ids data)" for k
    using that assms by (simp add: set_paired_ids rows_with_filter)
  have ids: "paired_ids ?data' = paired_ids data"
    by (rule paired_ids_filter) (rule assms)
  have "pairs_of r2u ?data'
        = map_result (\<lambda>k. make_pair (map (mk_entry r2u) (rows_with k ?data'))) (paired_ids data)"
    by (simp add: pairs_of_closed ids)
  also have "\<dots> = map_result (\<lambda>k. make_pair (map (mk_entry r2u) (rows_with k data)))
                      (paired_ids data)"
    by (rule map_result_cong_set) (simp add: rows)
  also have "\<dots> = pairs_of r2u data"
    by (simp add: pairs_of_closed)
  finally show ?thesis .
qed

lemma pairing_ids_zero_as_null: "pairing_ids (map zero_as_null data) = pairing_ids data"
proof (induction data)
  case Nil
  then show ?case by simp
next
  case (Cons m ms)
  have "pairing_ids (x # xs) = pairing_ids [x] @ pairing_ids xs" for x xs
    using pairing_ids_append [of "[x]" xs] by simp
  with Cons show ?case
    by (auto simp: pairing_ids_single zero_as_null_def split: option.splits)
qed

lemma rows_with_zero_as_null:
  "k \<noteq> 0 \<Longrightarrow> rows_with k (map zero_as_null data) = rows_with k data"
  by (induction data) (auto simp: rows_with_def zero_as_null_def)

lemma grouped_of_zero_as_null: "grouped_of r2u (map zero_as_null data) = grouped_of r2u data"
  using nonzero_pairing_ids
  by (simp add: grouped_of_closed pairing_ids_zero_as_null rows_with_zero_as_null)

lemma pairs_of_zero_as_null: "pairs_of r2u (map zero_as_null data) = pairs_of r2u data"
  by (simp add: pairs_of_def grouped_of_zero_as_null)

lemma length_pairing_ids:
  "\<forall>m\<in>set data. \<exists>k. matchup_row.matchup_id m = Some k \<and> k \<noteq> 0 \<Longrightarrow>
   length (pairing_ids data) = length data"
  by (induction data) (auto simp: pairing_ids_def map_filter_def)

lemma all_paired_length:
  assumes "\<forall>m\<in>set data. \<exists>k. matchup_row.matchup_id m = Some k \<and> k \<noteq> 0
             \<and> length (rows_with k data) = 2"
  shows "length data = 2 * length (paired_ids data)"
proof -
  let ?ids = "pairing_ids data"
  have two: "length (rows_with k data) = 2" if "k \<in> set ?ids" for k
    using that assms by (auto simp: set_pairing_ids)
  have len: "length ?ids = length data"
    using assms by (intro length_pairing_ids) blast
  have "length ?ids = sum (count_list ?ids) (set ?ids)"
    by (simp add: sum_count_set)
  also have "\<dots> = sum (\<lambda>k. 2) (set ?ids)"
    using two nonzero_pairing_ids by (intro sum.cong) (simp_all add: count_pairing_ids)
  also have "\<dots> = 2 * card (set ?ids)"
    by simp
  finally have "length data = 2 * card (set ?ids)"
    using len by simp
  moreover have "paired_ids data = key_order (first_seen ?ids)"
  proof -
    have "\<forall>k\<in>set (key_order (first_seen ?ids)). length (rows_with k data) = 2"
      using two by (auto simp: key_order_def)
    then show ?thesis
      by (simp add: paired_ids_def)
  qed
  ultimately show ?thesis
    by (simp add: length_key_order length_first_seen)
qed

lemma list_all2_in_right:
  "list_all2 P xs ys \<Longrightarrow> y \<in> set ys \<Longrightarrow> \<exists>x\<in>set xs. P x y"
  by (induction rule: list_all2_induct) auto

section \<open>Claims about the Matchup Pairer\<close>

text \<open>
  C2, as amended. When every row carries a pairing identifier that is neither missing nor
  0 and every identifier is carried by exactly two rows, the pairer returns (without
  throwing) exactly half as many matchups as there are rows, and each matchup is built
  from the two rows \<open>a\<close>, \<open>b\<close> carrying one identifier, in input order: its scores are their
  points, defaulted to 0 when missing, its names their resolved team names.
\<close>

theorem pairs_of_all_paired:
  assumes "\<forall>m\<in>set data. \<exists>k. matchup_row.matchup_id m = Some k \<and> k \<noteq> 0
             \<and> length (filter (\<lambda>m'. matchup_row.matchup_id m' = Some k) data) = 2"
  shows "\<exists>ps. pairs_of r2u data = Inr ps
           \<and> length ps = length data div 2
           \<and> (\<forall>p\<in>set ps. \<exists>k a b.
                 filter (\<lambda>m. matchup_row.matchup_id m = Some k) data = [a, b]
                 \<and> team1 p = teamName (mk_entry r2u a)
                 \<and> score1 p = num_or (matchup_row.points a) 0
                 \<and> team2 p = teamName (mk_entry r2u b)
                 \<and> score2 p = num_or (matchup_row.points b) 0)"
proof -
  obtain ps where ps: "pairs_of r2u data = Inr ps"
    and all2: "list_all2 (\<lambda>k p. \<exists>a b. rows_with k data = [a, b]
              \<and> p = \<lparr> team1 = teamName (mk_entry r2u a),
                      score1 = num_or (matchup_row.points a) 0,
                      team2 = teamName (mk_entry r2u b),
                      score2 = num_or (matchup_row.points b) 0 \<rparr>) (paired_ids data) ps"
    using pairs_of_result by blast
  have "length data = 2 * length (paired_ids data)"
    using assms by (intro all_paired_length) (simp add: rows_with_def)
  moreover have "length ps = length (paired_ids data)"
    using all2 by (simp add: list_all2_lengthD)
  ultimately have len: "length ps = length data div 2"
    by simp
  have "\<exists>k a b. filter (\<lambda>m. matchup_row.matchup_id m = Some k) data = [a, b]
                 \<and> team1 p = teamName (mk_entry r2u a)
                 \<and> score1 p = num_or (matchup_row.points a) 0
                 \<and> team2 p = teamName (mk_entry r2u b)
                 \<and> score2 p = num_or (matchup_row.points b) 0" if "p \<in> set ps" for p
  proof -
    from list_all2_in_right [OF all2 that] obtain k a b where "rows_with k data = [a, b]"
      "p = \<lparr> team1 = teamName (mk_entry r2u a), score1 = num_or (matchup_row.points a) 0,
             team2 = teamName (mk_entry r2u b), score2 = num_or (matchup_row.points b) 0 \<rparr>"
      by blast
    then show ?thesis
      by (auto simp: rows_with_def)
  qed
  with ps len show ?thesis by blast
qed

theorem pairs_of_all_paired_witness:
  "pairs_of Map.empty
     [\<lparr>matchup_row.roster_id = 1, matchup_row.matchup_id = Some 5, matchup_row.points = Some 101\<rparr>,
      \<lparr>matchup_row.roster_id = 2, matchup_row.matchup_id = Some 3, matchup_row.points = Some 88\<rparr>,
      \<lparr>matchup_row.roster_id = 3, matchup_row.matchup_id = Some 3, matchup_row.points = None\<rparr>,
      \<lparr>matchup_row.roster_id = 4, matchup_row.matchup_id = Some 5, matchup_row.points = Some 97\<rparr>]
   = Inr [\<lparr>team1 = ''Team 2'', score1 = 88, team2 = ''Team 3'', score2 = 0\<rparr>,
          \<lparr>team1 = ''Team 1'', score1 = 101, team2 = ''Team 4'', score2 = 97\<rparr>]
   \<and> (4::nat) div 2 = 2"
proof -
  let ?data = "[\<lparr>matchup_row.roster_id = 1, matchup_row.matchup_id = Some 5, matchup_row.points = Some 101\<rparr>,
      \<lparr>matchup_row.roster_id = 2, matchup_row.matchup_id = Some 3, matchup_row.points = Some 88\<rparr>,
      \<lparr>matchup_row.roster_id = 3, matchup_row.matchup_id = Some 3, matchup_row.points = None\<rparr>,
      \<lparr>matchup_row.roster_id = 4, matchup_row.matchup_id = Some 5, matchup_row.points = Some 97\<rparr>]"
  have h: "\<forall>m\<in>set ?data. \<exists>k. matchup_row.matchup_id m = Some k \<and> k \<noteq> 0
             \<and> length (filter (\<lambda>m'. matchup_row.matchup_id m' = Some k) ?data) = 2"
    by simp
  have e: "pairs_of Map.empty ?data
     = Inr [\<lparr>team1 = ''Team 2'', score1 = 88, team2 = ''Team 3'', score2 = 0\<rparr>,
          \<lparr>team1 = ''Team 1'', score1 = 101, team2 = ''Team 4'', score2 = 97\<rparr>]"
    by code_simp
  from pairs_of_all_paired [OF h, of Map.empty] e show ?thesis
    by simp
qed

text \<open>
  C2 as stated fails when the identifier is the number 0: both rows carry the identifier
  0, it appears exactly twice, the input has length 2, and no matchup is returned.
\<close>

theorem pairs_of_zero_id_counterexample:
  "map matchup_row.matchup_id
     [\<lparr>matchup_row.roster_id = 1, matchup_row.matchup_id = Some 0, matchup_row.points = Some 10\<rparr>,
      \<lparr>matchup_row.roster_id = 2, matchup_row.matchup_id = Some 0, matchup_row.points = Some 20\<rparr>]
   = [Some 0, Some 0]
   \<and> pairs_of Map.empty
     [\<lparr>matchup_row.roster_id = 1, matchup_row.matchup_id = Some 0, matchup_row.points = Some 10\<rparr>,
      \<lparr>matchup_row.roster_id = 2, matchup_row.matchup_id = Some 0, matchup_row.points = Some 20\<rparr>]
   = Inr []
   \<and> length
     [\<lparr>matchup_row.roster_id = 1, matchup_row.matchup_id = Some 0, matchup_row.points = Some 10\<rparr>,
      \<lparr>matchup_row.roster_id = 2, matchup_row.matchup_id = Some 0, matchup_row.points = Some 20\<rparr>]
     div 2 = 1"
  by (simp add: pairs_of_def grouped_of_def grouped_step_def object_values_def)

text \<open>
  C6. An identifier carried by one row or by three or more rows contributes no matchup:
  removing its rows leaves the result unchanged. A row without an identifier is never
  grouped, and removing such rows changes neither the groups nor the result. The matchups
  returned are as many as there are non-zero identifiers carried by exactly two rows, and
  each comes from the two rows of such an identifier.
\<close>

theorem pairs_of_drops_unpaired:
  "(length (filter (\<lambda>m. matchup_row.matchup_id m = Some k) data) \<noteq> 2 \<longrightarrow>
      pairs_of r2u (filter (\<lambda>m. matchup_row.matchup_id m \<noteq> Some k) data) = pairs_of r2u data)
   \<and> pairs_of r2u (filter (\<lambda>m. matchup_row.matchup_id m \<noteq> None) data) = pairs_of r2u data
   \<and> grouped_of r2u (filter (\<lambda>m. matchup_row.matchup_id m \<noteq> None) data) = grouped_of r2u data
   \<and> (\<exists>ps. pairs_of r2u data = Inr ps
         \<and> length ps
           = card {k'. k' \<noteq> 0
                       \<and> length (filter (\<lambda>m. matchup_row.matchup_id m = Some k') data) = 2}
         \<and> (\<forall>p\<in>set ps. \<exists>k' a b.
               k' \<noteq> 0
               \<and> filter (\<lambda>m. matchup_row.matchup_id m = Some k') data = [a, b]
               \<and> team1 p = teamName (mk_entry r2u a)
               \<and> score1 p = num_or (matchup_row.points a) 0
               \<and> team2 p = teamName (mk_entry r2u b)
               \<and> score2 p = num_or (matchup_row.points b) 0))"
proof -
  have one: "pairs_of r2u (filter (\<lambda>m. matchup_row.matchup_id m \<noteq> Some k) data) = pairs_of r2u data"
    if "length (filter (\<lambda>m. matchup_row.matchup_id m = Some k) data) \<noteq> 2"
    using that by (intro pairs_of_filter [where R = "\<lambda>i. i \<noteq> Some k"]) (auto simp: rows_with_def)
  have two: "pairs_of r2u (filter (\<lambda>m. matchup_row.matchup_id m \<noteq> None) data) = pairs_of r2u data"
    by (intro pairs_of_filter [where R = "\<lambda>i. i \<noteq> None"]) simp
  have three: "grouped_of r2u (filter (\<lambda>m. matchup_row.matchup_id m \<noteq> None) data)
               = grouped_of r2u data"
    by (intro grouped_of_filter [where R = "\<lambda>i. i \<noteq> None"]) simp
  obtain ps where ps: "pairs_of r2u data = Inr ps"
    and all2: "list_all2 (\<lambda>k p. \<exists>a b. rows_with k data = [a, b]
              \<and> p = \<lparr> team1 = teamName (mk_entry r2u a),
                      score1 = num_or (matchup_row.points a) 0,
                      team2 = teamName (mk_entry r2u b),
                      score2 = num_or (matchup_row.points b) 0 \<rparr>) (paired_ids data) ps"
    using pairs_of_result by blast
  have "length ps = length (paired_ids data)"
    using all2 by (simp add: list_all2_lengthD)
  also have "\<dots> = card (set (paired_ids data))"
    by (simp add: distinct_card distinct_paired_ids)
  finally have len: "length ps
           = card {k'. k' \<noteq> 0
                       \<and> length (filter (\<lambda>m. matchup_row.matchup_id m = Some k') data) = 2}"
    by (simp add: set_paired_ids rows_with_def)
  have src: "\<exists>k' a b. k' \<noteq> 0
               \<and> filter (\<lambda>m. matchup_row.matchup_id m = Some k') data = [a, b]
               \<and> team1 p = teamName (mk_entry r2u a)
               \<and> score1 p = num_or (matchup_row.points a) 0
               \<and> team2 p = teamName (mk_entry r2u b)
               \<and> score2 p = num_or (matchup_row.points b) 0" if "p \<in> set ps" for p
  proof -
    from list_all2_in_right [OF all2 that]
    obtain k' a b where "k' \<in> set (paired_ids data)" "rows_with k' data = [a, b]"
      "p = \<lparr> team1 = teamName (mk_entry r2u a), score1 = num_or (matchup_row.points a) 0,
             team2 = teamName (mk_entry r2u b), score2 = num_or (matchup_row.points b) 0 \<rparr>"
      by blast
    then show ?thesis
      by (auto simp: rows_with_def set_paired_ids)
  qed
  from one two three ps len src show ?thesis by blast
qed

theorem pairs_of_drops_unpaired_witness:
  "length (filter (\<lambda>m. matchup_row.matchup_id m = Some 9)
     [\<lparr>matchup_row.roster_id = 1, matchup_row.matchup_id = Some 9, matchup_row.points = Some 50\<rparr>,
      \<lparr>matchup_row.roster_id = 2, matchup_row.matchup_id = Some 4, matchup_row.points = Some 60\<rparr>,
      \<lparr>matchup_row.roster_id = 3, matchup_row.matchup_id = None, matchup_row.points = Some 70\<rparr>,
      \<lparr>matchup_row.roster_id = 4, matchup_row.matchup_id = Some 4, matchup_row.points = Some 80\<rparr>]) \<noteq> 2
   \<and> pairs_of Map.empty
     [\<lparr>matchup_row.roster_id = 2, matchup_row.matchup_id = Some 4, matchup_row.points = Some 60\<rparr>,
      \<lparr>matchup_row.roster_id = 3, matchup_row.matchup_id = None, matchup_row.points = Some 70\<rparr>,
      \<lparr>matchup_row.roster_id = 4, matchup_row.matchup_id = Some 4, matchup_row.points = Some 80\<rparr>]
     = pairs_of Map.empty
     [\<lparr>matchup_row.roster_id = 1, matchup_row.matchup_id = Some 9, matchup_row.points = Some 50\<rparr>,
      \<lparr>matchup_row.roster_id = 2, matchup_row.matchup_id = Some 4, matchup_row.points = Some 60\<rparr>,
      \<lparr>matchup_row.roster_id = 3, matchup_row.matchup_id = None, matchup_row.points = Some 70\<rparr>,
      \<lparr>matchup_row.roster_id = 4, matchup_row.matchup_id = Some 4, matchup_row.points = Some 80\<rparr>]
   \<and> pairs_of Map.empty
     [\<lparr>matchup_row.roster_id = 1, matchup_row.matchup_id = Some 9, matchup_row.points = Some 50\<rparr>,
      \<lparr>matchup_row.roster_id = 2, matchup_row.matchup_id = Some 4, matchup_row.points = Some 60\<rparr>,
      \<lparr>matchup_row.roster_id = 3, matchup_row.matchup_id = None, matchup_row.points = Some 70\<rparr>,
      \<lparr>matchup_row.roster_id = 4, matchup_row.matchup_id = Some 4, matchup_row.points = Some 80\<rparr>]
     = Inr [\<lparr>team1 = ''Team 2'', score1 = 60, team2 = ''Team 4'', score2 = 80\<rparr>]"
proof -
  let ?data = "[\<lparr>matchup_row.roster_id = 1, matchup_row.matchup_id = Some 9, matchup_row.points = Some 50\<rparr>,
      \<lparr>matchup_row.roster_id = 2, matchup_row.matchup_id = Some 4, matchup_row.points = Some 60\<rparr>,
      \<lparr>matchup_row.roster_id = 3, matchup_row.matchup_id = None, matchup_row.points = Some 70\<rparr>,
      \<lparr>matchup_row.roster_id = 4, matchup_row.matchup_id = Some 4, matchup_row.points = Some 80\<rparr>]"
  have e: "pairs_of Map.empty ?data
     = Inr [\<lparr>team1 = ''Team 2'', score1 = 60, team2 = ''Team 4'', score2 = 80\<rparr>]"
    by code_simp
  have n: "length (filter (\<lambda>m. matchup_row.matchup_id m = Some 9) ?data) \<noteq> 2"
    by simp
  from pairs_of_drops_unpaired [of 9 ?data Map.empty, THEN conjunct1, rule_format, OF n]
  have "pairs_of Map.empty (filter (\<lambda>m. matchup_row.matchup_id m \<noteq> Some 9) ?data)
        = pairs_of Map.empty ?data" .
  with n e show ?thesis
    by simp
qed

text \<open>
  C10. A row whose identifier is the number 0 is skipped like a row without identifier:
  removing the rows with identifier 0, or replacing their identifier by \<open>null\<close>, changes
  neither the groups nor the result, however many rows carry 0.
\<close>

theorem pairs_of_zero_id_excluded:
  "pairs_of r2u (filter (\<lambda>m. matchup_row.matchup_id m \<noteq> Some 0) data) = pairs_of r2u data
   \<and> grouped_of r2u (filter (\<lambda>m. matchup_row.matchup_id m \<noteq> Some 0) data) = grouped_of r2u data
   \<and> pairs_of r2u
       (map (\<lambda>m. if matchup_row.matchup_id m = Some 0
                  then m\<lparr>matchup_row.matchup_id := None\<rparr> else m) data)
     = pairs_of r2u data"
proof -
  have "pairs_of r2u (filter (\<lambda>m. matchup_row.matchup_id m \<noteq> Some 0) data) = pairs_of r2u data"
    by (intro pairs_of_filter [where R = "\<lambda>i. i \<noteq> Some 0"]) simp
  moreover have "grouped_of r2u (filter (\<lambda>m. matchup_row.matchup_id m \<noteq> Some 0) data)
                 = grouped_of r2u data"
    by (intro grouped_of_filter [where R = "\<lambda>i. i \<noteq> Some 0"]) simp
  moreover have "pairs_of r2u
       (map (\<lambda>m. if matchup_row.matchup_id m = Some 0
                  then m\<lparr>matchup_row.matchup_id := None\<rparr> else m) data)
     = pairs_of r2u data"
    using pairs_of_zero_as_null [of r2u data] by (simp add: zero_as_null_def [abs_def])
  ultimately show ?thesis by simp
qed

theorem pairs_of_zero_id_excluded_witness:
  "pairs_of Map.empty
     [\<lparr>matchup_row.roster_id = 6, matchup_row.matchup_id = Some 2, matchup_row.points = Some 90\<rparr>,
      \<lparr>matchup_row.roster_id = 7, matchup_row.matchup_id = Some 2, matchup_row.points = Some 75\<rparr>]
   = pairs_of Map.empty
     [\<lparr>matchup_row.roster_id = 1, matchup_row.matchup_id = Some 0, matchup_row.points = Some 10\<rparr>,
      \<lparr>matchup_row.roster_id = 6, matchup_row.matchup_id = Some 2, matchup_row.points = Some 90\<rparr>,
      \<lparr>matchup_row.roster_id = 2, matchup_row.matchup_id = Some 0, matchup_row.points = Some 20\<rparr>,
      \<lparr>matchup_row.roster_id = 7, matchup_row.matchup_id = Some 2, matchup_row.points = Some 75\<rparr>]
   \<and> pairs_of Map.empty
     [\<lparr>matchup_row.roster_id = 1, matchup_row.matchup_id = Some 0, matchup_row.points = Some 10\<rparr>,
      \<lparr>matchup_row.roster_id = 6, matchup_row.matchup_id = Some 2, matchup_row.points = Some 90\<rparr>,
      \<lparr>matchup_row.roster_id = 2, matchup_row.matchup_id = Some 0, matchup_row.points = Some 20\<rparr>,
      \<lparr>matchup_row.roster_id = 7, matchup_row.matchup_id = Some 2, matchup_row.points = Some 75\<rparr>]
   = Inr [\<lparr>team1 = ''Team 6'', score1 = 90, team2 = ''Team 7'', score2 = 75\<rparr>]"
proof -
  let ?data = "[\<lparr>matchup_row.roster_id = 1, matchup_row.matchup_id = Some 0, matchup_row.points = Some 10\<rparr>,
      \<lparr>matchup_row.roster_id = 6, matchup_row.matchup_id = Some 2, matchup_row.points = Some 90\<rparr>,
      \<lparr>matchup_row.roster_id = 2, matchup_row.matchup_id = Some 0, matchup_row.points = Some 20\<rparr>,
      \<lparr>matchup_row.roster_id = 7, matchup_row.matchup_id = Some 2, matchup_row.points = Some 75\<rparr>]"
  have e: "pairs_of Map.empty ?data
     = Inr [\<lparr>team1 = ''Team 6'', score1 = 90, team2 = ''Team 7'', score2 = 75\<rparr>]"
    by code_simp
  from pairs_of_zero_id_excluded [of Map.empty ?data, THEN conjunct1]
  have "pairs_of Map.empty (filter (\<lambda>m. matchup_row.matchup_id m \<noteq> Some 0) ?data)
        = pairs_of Map.empty ?data" .
  with e show ?thesis
    by simp
qed

section \<open>Properties of the Weekly Trend Aggregator\<close>

lemma fetchHistory_loop_fold:
  "fetchHistory_loop fetch hi w weeks = foldl (\<lambda>ws v. history_step fetch v ws) weeks [w..hi]"
proof (induction fetch hi w weeks rule: fetchHistory_loop.induct)
  case (1 fetch hi w weeks)
  show ?case
  proof (cases "w \<le> hi")
    case True
    then have "[w..hi] = w # [w + 1..hi]"
      by (simp add: upto_rec1)
    with True 1 show ?thesis
      by (simp add: fetchHistory_loop.simps [of fetch hi w])
  next
    case False
    then show ?thesis
      by (simp add: fetchHistory_loop.simps [of fetch hi w])
  qed
qed

lemma foldl_max: "foldl max (s::rat) ss = Max (set (s # ss))"
proof -
  have "(\<lambda>x y. max y x) = (max :: rat \<Rightarrow> rat \<Rightarrow> rat)"
    by (intro ext) (rule max.commute)
  then show ?thesis
    by (simp only: foldl_conv_fold Max.set_eq_fold)
qed

lemma foldl_min: "foldl min (s::rat) ss = Min (set (s # ss))"
proof -
  have "(\<lambda>x y. min y x) = (min :: rat \<Rightarrow> rat \<Rightarrow> rat)"
    by (intro ext) (rule min.commute)
  then show ?thesis
    by (simp only: foldl_conv_fold Min.set_eq_fold)
qed

lemma foldl_plus: "foldl (+) (a::rat) xs = a + sum_list xs"
  by (induction xs arbitrary: a) auto

lemma history_step_closed:
  "history_step fetch w weeks
   = weeks @ (if week_scores fetch w = [] then [] else [trend_of w (week_scores fetch w)])"
proof (cases "fetch w")
  case None
  then show ?thesis
    by (simp add: history_step_def week_scores_def)
next
  case (Some data)
  show ?thesis
  proof (cases "positive_scores data")
    case Nil
    with Some show ?thesis
      by (simp add: history_step_def week_scores_def)
  next
    case (Cons s ss)
    then have "data \<noteq> []"
      by (auto simp: positive_scores_def)
    with Some Cons show ?thesis
      by (simp add: history_step_def week_scores_def trend_of_def foldl_max foldl_min foldl_plus)
  qed
qed

lemma foldl_history:
  "foldl (\<lambda>ws v. history_step fetch v ws) weeks vs
   = weeks @ map (\<lambda>v. trend_of v (week_scores fetch v)) (filter (\<lambda>v. week_scores fetch v \<noteq> []) vs)"
  by (induction vs arbitrary: weeks) (auto simp: history_step_closed)

lemma fetchHistory_closed:
  "fetchHistory fetch cw
   = map (\<lambda>v. trend_of v (week_scores fetch v))
       (filter (\<lambda>v. week_scores fetch v \<noteq> []) [1..min cw 17])"
  by (simp add: fetchHistory_def fetchHistory_loop_fold foldl_history)

lemma useWeeklyHistory_closed:
  "useWeeklyHistory fetch cw
   = map (\<lambda>v. trend_of v (week_scores fetch v))
       (filter (\<lambda>v. week_scores fetch v \<noteq> []) [1..min cw 17])"
  by (simp add: useWeeklyHistory_def fetchHistory_closed)

text \<open>
  C5. The weeks of the history are the weeks from 1 to \<open>min currentWeek 17\<close>, ascending,
  that have at least one score greater than 0 after \<open>m.points || 0\<close>; the point of such a
  week carries the maximum, the minimum and the arithmetic mean of these scores; a week
  without such a score has no point. Scores 10, 20, 30 give high 30, low 10, average 20.
\<close>

theorem weekly_trend_points:
  "map week (useWeeklyHistory fetch cw)
   = filter (\<lambda>w. week_scores fetch w \<noteq> []) [1..min cw 17]
   \<and> (\<forall>p\<in>set (useWeeklyHistory fetch cw).
         week_scores fetch (week p) \<noteq> []
         \<and> high p = Max (set (week_scores fetch (week p)))
         \<and> low p = Min (set (week_scores fetch (week p)))
         \<and> avg p = sum_list (week_scores fetch (week p))
                   / of_nat (length (week_scores fetch (week p))))
   \<and> (\<forall>w. week_scores fetch w = [] \<longrightarrow> w \<notin> week ` set (useWeeklyHistory fetch cw))
   \<and> (\<forall>w. week_scores fetch w
           = (case fetch w of
                None \<Rightarrow> []
              | Some data \<Rightarrow> filter (\<lambda>p. p > 0) (map (\<lambda>m. num_or (matchup_row.points m) 0) data)))"
proof -
  have "\<forall>w. week_scores fetch w
           = (case fetch w of
                None \<Rightarrow> []
              | Some data \<Rightarrow> filter (\<lambda>p. p > 0) (map (\<lambda>m. num_or (matchup_row.points m) 0) data))"
    by (simp add: week_scores_def positive_scores_def split: option.splits)
  moreover have "map week (useWeeklyHistory fetch cw)
      = filter (\<lambda>w. week_scores fetch w \<noteq> []) [1..min cw 17]"
    by (simp add: useWeeklyHistory_closed trend_of_def comp_def)
  moreover have "\<forall>p\<in>set (useWeeklyHistory fetch cw).
         week_scores fetch (week p) \<noteq> []
         \<and> high p = Max (set (week_scores fetch (week p)))
         \<and> low p = Min (set (week_scores fetch (week p)))
         \<and> avg p = sum_list (week_scores fetch (week p))
                   / of_nat (length (week_scores fetch (week p)))"
    by (auto simp: useWeeklyHistory_closed trend_of_def)
  moreover have "\<forall>w. week_scores fetch w = [] \<longrightarrow> w \<notin> week ` set (useWeeklyHistory fetch cw)"
    by (auto simp: useWeeklyHistory_closed trend_of_def)
  ultimately show ?thesis by blast
qed

theorem weekly_trend_points_witness:
  "useWeeklyHistory
     (\<lambda>w. if w = 2
          then Some [\<lparr>matchup_row.roster_id = 1, matchup_row.matchup_id = Some 1, matchup_row.points = Some 10\<rparr>,
                     \<lparr>matchup_row.roster_id = 2, matchup_row.matchup_id = Some 1, matchup_row.points = Some 0\<rparr>,
                     \<lparr>matchup_row.roster_id = 3, matchup_row.matchup_id = Some 2, matchup_row.points = Some 20\<rparr>,
                     \<lparr>matchup_row.roster_id = 4, matchup_row.matchup_id = Some 2, matchup_row.points = None\<rparr>,
                     \<lparr>matchup_row.roster_id = 5, matchup_row.matchup_id = None, matchup_row.points = Some 30\<rparr>,
                     \<lparr>matchup_row.roster_id = 6, matchup_row.matchup_id = None, matchup_row.points = Some (- 4)\<rparr>]
          else if w = 3
          then Some [\<lparr>matchup_row.roster_id = 1, matchup_row.matchup_id = Some 1, matchup_row.points = Some 0\<rparr>]
          else None) 3
   = [\<lparr>week = 2, high = 30, low = 10, avg = 20\<rparr>]
   \<and> Max (set [10, 20, 30 :: rat]) = 30 \<and> Min (set [10, 20, 30 :: rat]) = 10
   \<and> sum_list [10, 20, 30 :: rat] / of_nat (length [10, 20, 30 :: rat]) = 20"
proof -
  let ?fetch = "\<lambda>w :: int. if w = 2
          then Some [\<lparr>matchup_row.roster_id = 1, matchup_row.matchup_id = Some 1, matchup_row.points = Some 10\<rparr>,
                     \<lparr>matchup_row.roster_id = 2, matchup_row.matchup_id = Some 1, matchup_row.points = Some 0\<rparr>,
                     \<lparr>matchup_row.roster_id = 3, matchup_row.matchup_id = Some 2, matchup_row.points = Some 20\<rparr>,
                     \<lparr>matchup_row.roster_id = 4, matchup_row.matchup_id = Some 2, matchup_row.points = None\<rparr>,
                     \<lparr>matchup_row.roster_id = 5, matchup_row.matchup_id = None, matchup_row.points = Some 30\<rparr>,
                     \<lparr>matchup_row.roster_id = 6, matchup_row.matchup_id = None, matchup_row.points = Some (- 4)\<rparr>]
          else if w = 3
          then Some [\<lparr>matchup_row.roster_id = 1, matchup_row.matchup_id = Some 1, matchup_row.points = Some 0\<rparr>]
          else None"
  let ?p = "\<lparr>week = 2, high = 30, low = 10, avg = 20\<rparr> :: trend_point"
  have e: "useWeeklyHistory ?fetch 3 = [?p]"
    by code_simp
  have s: "week_scores ?fetch 2 = [10, 20, 30]"
    by (simp add: week_scores_def positive_scores_def num_or_def)
  from weekly_trend_points [of ?fetch 3, THEN conjunct2, THEN conjunct1, rule_format, of ?p]
  have "high ?p = Max (set (week_scores ?fetch (week ?p)))
        \<and> low ?p = Min (set (week_scores ?fetch (week ?p)))
        \<and> avg ?p = sum_list (week_scores ?fetch (week ?p))
                   / of_nat (length (week_scores ?fetch (week ?p)))"
    unfolding e by simp
  then have "Max (set [10, 20, 30 :: rat]) = 30 \<and> Min (set [10, 20, 30 :: rat]) = 10
   \<and> sum_list [10, 20, 30 :: rat] / of_nat (length [10, 20, 30 :: rat]) = 20"
    using s by simp
  with e show ?thesis by simp
qed

section \<open>Properties of the Award Calculator\<close>

lemma first_best_snoc:
  assumes "first_best key ys b"
  shows "first_best key (ys @ [x]) (if key x > key b then x else b)"
proof -
  from assms obtain i where i: "i < length ys" "b = ys ! i"
    and le: "\<forall>j<length ys. key (ys ! j) \<le> key b"
    and lt: "\<forall>j<i. key (ys ! j) < key b"
    by (auto simp: first_best_def)
  show ?thesis
  proof (cases "key x > key b")
    case True
    have "\<forall>j<length (ys @ [x]). key ((ys @ [x]) ! j) \<le> key x"
      using le True by (auto simp: nth_append less_Suc_eq)
    moreover have "\<forall>j<length ys. key ((ys @ [x]) ! j) < key x"
      using le True by (auto simp: nth_append)
    ultimately have "first_best key (ys @ [x]) x"
      unfolding first_best_def by (intro exI [of _ "length ys"]) simp
    with True show ?thesis by simp
  next
    case False
    have "\<forall>j<length (ys @ [x]). key ((ys @ [x]) ! j) \<le> key b"
      using le False by (auto simp: nth_append less_Suc_eq)
    moreover have "\<forall>j<i. key ((ys @ [x]) ! j) < key b"
      using lt i by (auto simp: nth_append)
    moreover have "(ys @ [x]) ! i = b"
      using i by (simp add: nth_append)
    ultimately have "first_best key (ys @ [x]) b"
      unfolding first_best_def using i by (intro exI [of _ i]) simp
    with False show ?thesis by simp
  qed
qed

lemma foldl_first_best:
  "first_best key (s0 # xs) (foldl (\<lambda>mx t. if key t > key mx then t else mx) s0 xs)"
proof (induction xs rule: rev_induct)
  case Nil
  then show ?case by (simp add: first_best_def)
next
  case (snoc x xs)
  from first_best_snoc [OF snoc, of x] show ?case by simp
qed

lemma top_of_first_best:
  "scores \<noteq> [] \<Longrightarrow> \<exists>t. top_of scores = Some t \<and> first_best score.points scores t"
proof (cases scores)
  case Nil
  then show "scores \<noteq> [] \<Longrightarrow> ?thesis" by simp
next
  case (Cons s0 rest)
  then show ?thesis
    using foldl_first_best [of score.points s0 rest]
    by (simp add: top_of_def reduce_from_first_def)
qed

lemma low_of_first_best:
  "scores \<noteq> [] \<Longrightarrow> \<exists>t. low_of scores = Some t \<and> first_best (\<lambda>t. - score.points t) scores t"
proof (cases scores)
  case Nil
  then show "scores \<noteq> [] \<Longrightarrow> ?thesis" by simp
next
  case (Cons s0 rest)
  then show ?thesis
    using foldl_first_best [of "\<lambda>t. - score.points t" s0 rest]
    by (simp add: low_of_def reduce_from_first_def)
qed

lemma award_scores_Nil [simp]: "award_scores r2u [] = []"
  by (simp add: award_scores_def)

lemma award_step_result:
  "\<exists>as. award_step toFixed2 fetch r2u w result = Inr (result @ as)
        \<and> list_all2 (\<lambda>v a. is_award_of toFixed2 v (week_award_scores fetch r2u v) a)
             (filter (\<lambda>v. week_award_scores fetch r2u v \<noteq> []) [w]) as"
proof (cases "week_award_scores fetch r2u w = []")
  case True
  then have "award_step toFixed2 fetch r2u w result = Inr result"
    by (auto simp: award_step_def week_award_scores_def split: option.splits)
  with True show ?thesis by simp
next
  case False
  then obtain matchups where m: "fetch w = Some matchups" "award_scores r2u matchups \<noteq> []"
    by (auto simp: week_award_scores_def split: option.splits)
  then have ne: "matchups \<noteq> []"
    by auto
  from m obtain t l where tl: "top_of (award_scores r2u matchups) = Some t"
      "low_of (award_scores r2u matchups) = Some l"
    using top_of_first_best low_of_first_best by blast
  let ?a = "\<lparr> week = w, topDawg = t, superWeenie = l,
              horsesAss = \<lparr> horses_ass.name = team l,
                            detail = toFixed2 (score.points l) @ '' pts'' \<rparr> \<rparr>"
  have "award_step toFixed2 fetch r2u w result = Inr (result @ [?a])"
    using m ne tl by (simp add: award_step_def)
  moreover have "is_award_of toFixed2 w (week_award_scores fetch r2u w) ?a"
    using m tl by (simp add: is_award_of_def week_award_scores_def)
  ultimately show ?thesis
    using False by simp
qed

lemma calculate_loop_result:
  "\<exists>as. calculate_loop toFixed2 fetch r2u hi w result = Inr (result @ as)
        \<and> list_all2 (\<lambda>v a. is_award_of toFixed2 v (week_award_scores fetch r2u v) a)
             (filter (\<lambda>v. week_award_scores fetch r2u v \<noteq> []) [w..hi]) as"
proof (induction toFixed2 fetch r2u hi w result rule: calculate_loop.induct)
  case (1 toFixed2 fetch r2u hi w result)
  let ?P = "\<lambda>v a. is_award_of toFixed2 v (week_award_scores fetch r2u v) a"
  let ?ne = "\<lambda>v. week_award_scores fetch r2u v \<noteq> []"
  show ?case
  proof (cases "w \<le> hi")
    case False
    then show ?thesis
      by (simp add: calculate_loop.simps [of toFixed2 fetch r2u hi w])
  next
    case True
    obtain as1 where s1: "award_step toFixed2 fetch r2u w result = Inr (result @ as1)"
      and a1: "list_all2 ?P (filter ?ne [w]) as1"
      using award_step_result by blast
    from 1 [OF True s1] obtain as2
      where s2: "calculate_loop toFixed2 fetch r2u hi (w + 1) (result @ as1)
                 = Inr ((result @ as1) @ as2)"
        and a2: "list_all2 ?P (filter ?ne [w + 1..hi]) as2"
      by blast
    have "[w..hi] = [w] @ [w + 1..hi]"
      using True by (simp add: upto_rec1)
    then have "filter ?ne [w..hi] = filter ?ne [w] @ filter ?ne [w + 1..hi]"
      by (simp only: filter_append)
    with a1 a2 have "list_all2 ?P (filter ?ne [w..hi]) (as1 @ as2)"
      by (simp only: list_all2_appendI)
    moreover have "calculate_loop toFixed2 fetch r2u hi w result = Inr (result @ as1 @ as2)"
      using True s1 s2 by (simp add: calculate_loop.simps [of toFixed2 fetch r2u hi w])
    ultimately show ?thesis by blast
  qed
qed

lemma Awards_result:
  "\<exists>as. Awards toFixed2 fetch um rs cw = Inr as
        \<and> list_all2 (\<lambda>v a. is_award_of toFixed2 v
                 (week_award_scores fetch (rosterToUser_of um rs) v) a)
             (rev (filter (\<lambda>v. week_award_scores fetch (rosterToUser_of um rs) v \<noteq> [])
                [max 1 (cw - 2)..cw])) as"
proof (cases "cw = 0")
  case True
  then show ?thesis by (simp add: Awards_def)
next
  case False
  obtain as where "calculate_loop toFixed2 fetch (rosterToUser_of um rs) cw (max 1 (cw - 2)) []
                   = Inr ([] @ as)"
    and "list_all2 (\<lambda>v a. is_award_of toFixed2 v
                 (week_award_scores fetch (rosterToUser_of um rs) v) a)
             (filter (\<lambda>v. week_award_scores fetch (rosterToUser_of um rs) v \<noteq> [])
                [max 1 (cw - 2)..cw]) as"
    using calculate_loop_result by blast
  with False show ?thesis
    by (simp add: Awards_def calculate_def list_all2_rev)
qed

lemma is_award_of_unique:
  "is_award_of toFixed2 w scores a \<Longrightarrow> is_award_of toFixed2 w scores b \<Longrightarrow> a = b"
  by (cases a; cases b) (simp add: is_award_of_def)

lemma list_all2_unique:
  "list_all2 P xs as \<Longrightarrow> list_all2 P xs bs \<Longrightarrow>
   (\<And>x a b. P x a \<Longrightarrow> P x b \<Longrightarrow> a = b) \<Longrightarrow> as = bs"
proof (induction xs arbitrary: as bs)
  case Nil
  then show ?case by simp
next
  case (Cons x xs)
  then show ?case
    by (auto simp: list_all2_Cons1)
qed

lemma Awards_cong:
  assumes "\<And>w. max 1 (cw - 2) \<le> w \<Longrightarrow> w \<le> cw \<Longrightarrow> fetch' w = fetch w"
  shows "Awards toFixed2 fetch' um rs cw = Awards toFixed2 fetch um rs cw"
proof -
  let ?r2u = "rosterToUser_of um rs"
  let ?W = "[max 1 (cw - 2)..cw]"
  have sc: "week_award_scores fetch' ?r2u w = week_award_scores fetch ?r2u w" if "w \<in> set ?W" for w
    using that assms by (simp add: week_award_scores_def)
  then have f: "filter (\<lambda>v. week_award_scores fetch' ?r2u v \<noteq> []) ?W
             = filter (\<lambda>v. week_award_scores fetch ?r2u v \<noteq> []) ?W"
    by (intro filter_cong) simp_all
  obtain as where as: "Awards toFixed2 fetch um rs cw = Inr as"
    "list_all2 (\<lambda>v a. is_award_of toFixed2 v (week_award_scores fetch ?r2u v) a)
       (rev (filter (\<lambda>v. week_award_scores fetch ?r2u v \<noteq> []) ?W)) as"
    using Awards_result by blast
  obtain bs where bs: "Awards toFixed2 fetch' um rs cw = Inr bs"
    "list_all2 (\<lambda>v a. is_award_of toFixed2 v (week_award_scores fetch' ?r2u v) a)
       (rev (filter (\<lambda>v. week_award_scores fetch' ?r2u v \<noteq> []) ?W)) bs"
    using Awards_result by blast
  from bs(2) have "list_all2 (\<lambda>v a. is_award_of toFixed2 v (week_award_scores fetch ?r2u v) a)
       (rev (filter (\<lambda>v. week_award_scores fetch ?r2u v \<noteq> []) ?W)) bs"
    unfolding f
    by (rule list.rel_mono_strong) (use sc in auto)
  with as(2) have "as = bs"
    by (rule list_all2_unique) (rule is_award_of_unique)
  with as bs show ?thesis by simp
qed

lemma list_all2_map_eq:
  "list_all2 (\<lambda>v a. v = f a) xs as \<Longrightarrow> map f as = xs"
  by (induction rule: list_all2_induct) auto

lemma upto_three: "(3::int) \<le> cw \<Longrightarrow> [max 1 (cw - 2)..cw] = [cw - 2, cw - 1, cw]"
proof -
  assume c: "3 \<le> cw"
  have "[cw - 2..cw] = (cw - 2) # [cw - 1..cw]"
    using upto_rec1 [of "cw - 2" cw] by simp
  also have "[cw - 1..cw] = (cw - 1) # [cw..cw]"
    using upto_rec1 [of "cw - 1" cw] by simp
  finally show ?thesis
    using c by (simp add: max_def)
qed

lemma first_best_low:
  "first_best (\<lambda>t. - score.points t) xs x \<longleftrightarrow>
     (\<exists>i<length xs. x = xs ! i
        \<and> (\<forall>j<length xs. score.points x \<le> score.points (xs ! j))
        \<and> (\<forall>j<i. score.points x < score.points (xs ! j)))"
  by (simp add: first_best_def)

section \<open>Properties of the backend variant of the awards\<close>

lemma fetchAwards_step_closed:
  "fetchAwards_step fetch w result
   = result @ (if week_has_awards fetch w then [awards_view w (the (fetch w))] else [])"
  by (auto simp: fetchAwards_step_def USE_BACKEND_API_def week_has_awards_def
      split: option.splits)

lemma fetchAwards_loop_closed:
  "fetchAwards_loop fetch hi w result
   = result @ map (\<lambda>v. awards_view v (the (fetch v))) (filter (week_has_awards fetch) [w..hi])"
proof (induction fetch hi w result rule: fetchAwards_loop.induct)
  case (1 fetch hi w result)
  show ?case
  proof (cases "w \<le> hi")
    case True
    then have "[w..hi] = w # [w + 1..hi]"
      by (simp add: upto_rec1)
    with True 1 show ?thesis
      by (simp add: fetchAwards_loop.simps [of fetch hi w] fetchAwards_step_closed)
  next
    case False
    then show ?thesis
      by (simp add: fetchAwards_loop.simps [of fetch hi w])
  qed
qed

lemma useAwards_closed:
  "useAwards fetch cw
   = rev (map (\<lambda>v. awards_view v (the (fetch v)))
            (filter (week_has_awards fetch) [max 1 (cw - 2)..cw]))"
  by (simp add: useAwards_def fetchAwards_def fetchAwards_loop_closed)

lemma week_awards_view [simp]: "week (awards_view w weekAwards) = w"
  by (simp add: awards_view_def Let_def)

lemma useAwards_weeks:
  "map week (useAwards fetch cw) = rev (filter (week_has_awards fetch) [max 1 (cw - 2)..cw])"
  by (simp add: useAwards_closed rev_map comp_def)

lemma useAwards_views:
  "v \<in> set (useAwards fetch cw) \<Longrightarrow>
   \<exists>weekAwards. fetch (week v) = Some weekAwards \<and> weekAwards \<noteq> []
      \<and> v = awards_view (week v) weekAwards"
  by (auto simp: useAwards_closed week_has_awards_def split: option.splits)

lemma starts_with_iff: "starts_with s p \<longleftrightarrow> (\<exists>suf. s = p @ suf)"
  by (induction s p rule: starts_with.induct) auto

lemma str_includes_iff: "str_includes s sub \<longleftrightarrow> (\<exists>pre suf. s = pre @ sub @ suf)"
proof (induction s)
  case Nil
  then show ?case by auto
next
  case (Cons c cs)
  have "(\<exists>pre suf. c # cs = pre @ sub @ suf)
        \<longleftrightarrow> (\<exists>suf. c # cs = sub @ suf) \<or> (\<exists>pre suf. cs = pre @ sub @ suf)"
  proof
    assume "\<exists>pre suf. c # cs = pre @ sub @ suf"
    then obtain pre suf where e: "c # cs = pre @ sub @ suf" by blast
    show "(\<exists>suf. c # cs = sub @ suf) \<or> (\<exists>pre suf. cs = pre @ sub @ suf)"
    proof (cases pre)
      case Nil
      with e show ?thesis by auto
    next
      case (Cons p pre')
      with e have "cs = pre' @ sub @ suf" by simp
      then show ?thesis by blast
    qed
  next
    assume "(\<exists>suf. c # cs = sub @ suf) \<or> (\<exists>pre suf. cs = pre @ sub @ suf)"
    then show "\<exists>pre suf. c # cs = pre @ sub @ suf"
    proof
      assume "\<exists>suf. c # cs = sub @ suf"
      then obtain suf where "c # cs = [] @ sub @ suf" by auto
      then show ?thesis by blast
    next
      assume "\<exists>pre suf. cs = pre @ sub @ suf"
      then obtain pre suf where "c # cs = (c # pre) @ sub @ suf" by auto
      then show ?thesis by blast
    qed
  qed
  with Cons show ?case
    by (simp add: starts_with_iff)
qed

lemma replace_absent: "\<not> str_includes s pat \<Longrightarrow> replace s pat rep = s"
  by (induction s) auto

lemma replace_first:
  assumes "s = pre @ pat @ suf"
    and "\<And>pre' suf'. s = pre' @ pat @ suf' \<Longrightarrow> length pre \<le> length pre'"
  shows "replace s pat rep = pre @ rep @ suf"
  using assms
proof (induction s arbitrary: pre)
  case Nil
  then show ?case by simp
next
  case (Cons c cs)
  show ?case
  proof (cases "starts_with (c # cs) pat")
    case True
    then obtain suf0 where "c # cs = [] @ pat @ suf0"
      by (auto simp: starts_with_iff)
    from Cons.prems(2) [OF this] have pre: "pre = []" by simp
    have "replace (c # cs) pat rep = rep @ drop (length pat) (c # cs)"
      using True by simp
    also have "drop (length pat) (c # cs) = suf"
      using Cons.prems(1) pre by simp
    finally show ?thesis
      using pre by simp
  next
    case False
    then have "pre \<noteq> []"
      using Cons.prems(1) by (auto simp: starts_with_iff)
    then obtain pre1 where pre: "pre = c # pre1" and cs: "cs = pre1 @ pat @ suf"
      using Cons.prems(1) by (cases pre) auto
    have "length pre1 \<le> length pre'" if "cs = pre' @ pat @ suf'" for pre' suf'
    proof -
      from that have "c # cs = (c # pre') @ pat @ suf'" by simp
      from Cons.prems(2) [OF this] pre show ?thesis by simp
    qed
    with Cons.IH [OF cs] have "replace cs pat rep = pre1 @ rep @ suf" by blast
    with False pre show ?thesis by simp
  qed
qed

lemma first_titled_find:
  "first_titled sub weekAwards (find (\<lambda>a. str_includes (backend_award.title a) sub) weekAwards)"
proof (cases "find (\<lambda>a. str_includes (backend_award.title a) sub) weekAwards")
  case None
  then have "\<forall>a\<in>set weekAwards. \<not> str_includes (backend_award.title a) sub"
    by (simp add: find_None_iff)
  then show ?thesis
    unfolding first_titled_def None by simp
next
  case (Some a)
  then have "\<exists>i<length weekAwards. a = weekAwards ! i
             \<and> str_includes (backend_award.title a) sub
             \<and> (\<forall>j<i. \<not> str_includes (backend_award.title (weekAwards ! j)) sub)"
    by (auto simp: find_Some_iff)
  then show ?thesis
    unfolding first_titled_def Some by simp
qed

lemma useAwards_first_titled:
  assumes "v \<in> set (useAwards fetch cw)"
  shows "\<exists>weekAwards td sw ha.
           fetch (week v) = Some weekAwards \<and> weekAwards \<noteq> []
           \<and> first_titled ''Top Dawg'' weekAwards td
           \<and> first_titled ''Super Weenie'' weekAwards sw
           \<and> first_titled ''Horse'' weekAwards ha
           \<and> week_awards.topDawg v
             = map_option (\<lambda>a. \<lparr> award_view.team = winner a,
                                  award_view.points = backend_award.detail a \<rparr>) td
           \<and> week_awards.superWeenie v
             = map_option (\<lambda>a. \<lparr> award_view.team = winner a,
                                  award_view.points = backend_award.detail a \<rparr>) sw
           \<and> week_awards.horsesAss v
             = map_option
                 (\<lambda>a. \<lparr> horse_view.title =
                            replace (replace (backend_award.title a)
                                       (horse_face @ '' Horse's Ass: '') [])
                              (horse_face @ '' Horses Ass: '') [],
                          horse_view.team = winner a,
                          reason = backend_award.detail a \<rparr>) ha"
proof -
  from useAwards_views [OF assms] obtain weekAwards
    where w: "fetch (week v) = Some weekAwards" "weekAwards \<noteq> []"
      "v = awards_view (week v) weekAwards"
    by blast
  let ?td = "find (\<lambda>a. str_includes (backend_award.title a) ''Top Dawg'') weekAwards"
  let ?sw = "find (\<lambda>a. str_includes (backend_award.title a) ''Super Weenie'') weekAwards"
  let ?ha = "find (\<lambda>a. str_includes (backend_award.title a) ''Horse'') weekAwards"
  have v: "v = awards_view (week v) weekAwards"
    by (rule w(3))
  have "week_awards.topDawg (awards_view (week v) weekAwards)
        = map_option (\<lambda>a. \<lparr> award_view.team = winner a,
                             award_view.points = backend_award.detail a \<rparr>) ?td"
    "week_awards.superWeenie (awards_view (week v) weekAwards)
        = map_option (\<lambda>a. \<lparr> award_view.team = winner a,
                             award_view.points = backend_award.detail a \<rparr>) ?sw"
    "week_awards.horsesAss (awards_view (week v) weekAwards)
        = map_option
                 (\<lambda>a. \<lparr> horse_view.title =
                            replace (replace (backend_award.title a)
                                       (horse_face @ '' Horse's Ass: '') [])
                              (horse_face @ '' Horses Ass: '') [],
                          horse_view.team = winner a,
                          reason = backend_award.detail a \<rparr>) ?ha"
    by (simp_all add: awards_view_def Let_def)
  with v have "week_awards.topDawg v
        = map_option (\<lambda>a. \<lparr> award_view.team = winner a,
                             award_view.points = backend_award.detail a \<rparr>) ?td"
    "week_awards.superWeenie v
        = map_option (\<lambda>a. \<lparr> award_view.team = winner a,
                             award_view.points = backend_award.detail a \<rparr>) ?sw"
    "week_awards.horsesAss v
        = map_option
                 (\<lambda>a. \<lparr> horse_view.title =
                            replace (replace (backend_award.title a)
                                       (horse_face @ '' Horse's Ass: '') [])
                              (horse_face @ '' Horses Ass: '') [],
                          horse_view.team = winner a,
                          reason = backend_award.detail a \<rparr>) ?ha"
    by simp_all
  with w(1,2) first_titled_find [of "''Top Dawg''" weekAwards]
    first_titled_find [of "''Super Weenie''" weekAwards]
    first_titled_find [of "''Horse''" weekAwards]
  show ?thesis
    by (intro exI [of _ weekAwards] exI [of _ ?td] exI [of _ ?sw] exI [of _ ?ha] conjI)
qed

text \<open>
  C3, as amended. The local calculator (\<open>Awards\<close>) never throws. Its awards are those of
  the weeks from \<open>max 1 (currentWeek - 2)\<close> to \<open>currentWeek\<close> that have a positive score,
  most recent week first; for \<open>currentWeek \<ge> 3\<close> these are the three weeks ending at
  \<open>currentWeek\<close>, and the result does not depend on any other week. The top scorer of a
  week is the first of its scores with the greatest points, the low scorer the first with
  the least. The backend variant (\<open>useAwards\<close> of \<open>App.jsx\<close>) visits the same weeks and
  returns those with a non-empty feed, most recent first, but computes no maximum or
  minimum: the top scorer, the low scorer and the third award of a week are the winner
  and detail of the first award of the feed whose title contains \<open>Top Dawg\<close>,
  \<open>Super Weenie\<close> and \<open>Horse\<close>, and are absent when no title does; the title of the third
  award loses the first occurrence of each of the two prefixes.
\<close>

theorem awards_trailing_window:
  "(\<exists>as. Awards toFixed2 fetch um rs cw = Inr as
     \<and> map week as
       = rev (filter (\<lambda>w. week_award_scores fetch (rosterToUser_of um rs) w \<noteq> [])
                [max 1 (cw - 2)..cw])
     \<and> (\<forall>a\<in>set as.
           (\<exists>i<length (week_award_scores fetch (rosterToUser_of um rs) (week a)).
              topDawg a = week_award_scores fetch (rosterToUser_of um rs) (week a) ! i
              \<and> (\<forall>j<length (week_award_scores fetch (rosterToUser_of um rs) (week a)).
                    score.points (week_award_scores fetch (rosterToUser_of um rs) (week a) ! j)
                    \<le> score.points (topDawg a))
              \<and> (\<forall>j<i.
                    score.points (week_award_scores fetch (rosterToUser_of um rs) (week a) ! j)
                    < score.points (topDawg a)))
         \<and> (\<exists>i<length (week_award_scores fetch (rosterToUser_of um rs) (week a)).
              superWeenie a = week_award_scores fetch (rosterToUser_of um rs) (week a) ! i
              \<and> (\<forall>j<length (week_award_scores fetch (rosterToUser_of um rs) (week a)).
                    score.points (superWeenie a)
                    \<le> score.points (week_award_scores fetch (rosterToUser_of um rs) (week a) ! j))
              \<and> (\<forall>j<i.
                    score.points (superWeenie a)
                    < score.points (week_award_scores fetch (rosterToUser_of um rs) (week a) ! j))))
     \<and> (\<forall>fetch'. (\<forall>w. max 1 (cw - 2) \<le> w \<and> w \<le> cw \<longrightarrow> fetch' w = fetch w) \<longrightarrow>
           Awards toFixed2 fetch' um rs cw = Inr as)
     \<and> (3 \<le> cw \<longrightarrow> [max 1 (cw - 2)..cw] = [cw - 2, cw - 1, cw]))
   \<and> map week (useAwards fetchA cw)
     = rev (filter (\<lambda>w. case fetchA w of None \<Rightarrow> False | Some weekAwards \<Rightarrow> weekAwards \<noteq> [])
              [max 1 (cw - 2)..cw])
   \<and> (\<forall>v\<in>set (useAwards fetchA cw).
         \<exists>weekAwards td sw ha.
           fetchA (week v) = Some weekAwards \<and> weekAwards \<noteq> []
           \<and> first_titled ''Top Dawg'' weekAwards td
           \<and> first_titled ''Super Weenie'' weekAwards sw
           \<and> first_titled ''Horse'' weekAwards ha
           \<and> week_awards.topDawg v
             = map_option (\<lambda>a. \<lparr> award_view.team = winner a,
                                  award_view.points = backend_award.detail a \<rparr>) td
           \<and> week_awards.superWeenie v
             = map_option (\<lambda>a. \<lparr> award_view.team = winner a,
                                  award_view.points = backend_award.detail a \<rparr>) sw
           \<and> week_awards.horsesAss v
             = map_option
                 (\<lambda>a. \<lparr> horse_view.title =
                            replace (replace (backend_award.title a)
                                       (horse_face @ '' Horse's Ass: '') [])
                              (horse_face @ '' Horses Ass: '') [],
                          horse_view.team = winner a,
                          reason = backend_award.detail a \<rparr>) ha)
   \<and> (\<forall>s sub. str_includes s sub \<longleftrightarrow> (\<exists>pre suf. s = pre @ sub @ suf))
   \<and> (\<forall>s pat rep.
         (\<not> str_includes s pat \<longrightarrow> replace s pat rep = s)
         \<and> (\<forall>pre suf.
               s = pre @ pat @ suf
               \<and> (\<forall>pre' suf'. s = pre' @ pat @ suf' \<longrightarrow> length pre \<le> length pre') \<longrightarrow>
               replace s pat rep = pre @ rep @ suf))"
  (is "?local \<and> ?weeks \<and> ?views \<and> ?incl \<and> ?repl")
proof -
  let ?S = "week_award_scores fetch (rosterToUser_of um rs)"
  obtain as where as: "Awards toFixed2 fetch um rs cw = Inr as"
    and all2: "list_all2 (\<lambda>v a. is_award_of toFixed2 v (?S v) a)
       (rev (filter (\<lambda>v. ?S v \<noteq> []) [max 1 (cw - 2)..cw])) as"
    using Awards_result by blast
  have weeks: "map week as = rev (filter (\<lambda>w. ?S w \<noteq> []) [max 1 (cw - 2)..cw])"
  proof -
    have "list_all2 (\<lambda>v a. v = week a) (rev (filter (\<lambda>v. ?S v \<noteq> []) [max 1 (cw - 2)..cw])) as"
      by (rule list.rel_mono_strong [OF all2]) (simp add: is_award_of_def)
    then show ?thesis
      by (rule list_all2_map_eq)
  qed
  have best: "first_best score.points (?S (week a)) (topDawg a)
              \<and> first_best (\<lambda>t. - score.points t) (?S (week a)) (superWeenie a)"
    if "a \<in> set as" for a
  proof -
    from list_all2_in_right [OF all2 that] obtain v where v: "?S v \<noteq> []"
      "is_award_of toFixed2 v (?S v) a"
      by auto
    then have "week a = v" "top_of (?S v) = Some (topDawg a)" "low_of (?S v) = Some (superWeenie a)"
      by (simp_all add: is_award_of_def)
    with top_of_first_best [OF v(1)] low_of_first_best [OF v(1)] show ?thesis
      by auto
  qed
  have cong: "Awards toFixed2 fetch' um rs cw = Inr as"
    if "\<forall>w. max 1 (cw - 2) \<le> w \<and> w \<le> cw \<longrightarrow> fetch' w = fetch w" for fetch'
    using Awards_cong [of cw fetch' fetch toFixed2 um rs] that as by simp
  have three: "[max 1 (cw - 2)..cw] = [cw - 2, cw - 1, cw]" if "3 \<le> cw"
    using that by (rule upto_three)
  have best': "(\<exists>i<length (?S (week a)). topDawg a = ?S (week a) ! i
              \<and> (\<forall>j<length (?S (week a)). score.points (?S (week a) ! j) \<le> score.points (topDawg a))
              \<and> (\<forall>j<i. score.points (?S (week a) ! j) < score.points (topDawg a)))
         \<and> (\<exists>i<length (?S (week a)). superWeenie a = ?S (week a) ! i
              \<and> (\<forall>j<length (?S (week a)). score.points (superWeenie a) \<le> score.points (?S (week a) ! j))
              \<and> (\<forall>j<i. score.points (superWeenie a) < score.points (?S (week a) ! j)))"
    if "a \<in> set as" for a
    using best [OF that] unfolding first_best_low unfolding first_best_def .
  have local: ?local
  proof (intro exI [of _ as] conjI)
    show "Awards toFixed2 fetch um rs cw = Inr as"
      by (rule as)
    show "map week as = rev (filter (\<lambda>w. ?S w \<noteq> []) [max 1 (cw - 2)..cw])"
      by (rule weeks)
    show "\<forall>fetch'. (\<forall>w. max 1 (cw - 2) \<le> w \<and> w \<le> cw \<longrightarrow> fetch' w = fetch w) \<longrightarrow>
           Awards toFixed2 fetch' um rs cw = Inr as"
      using cong by blast
    show "3 \<le> cw \<longrightarrow> [max 1 (cw - 2)..cw] = [cw - 2, cw - 1, cw]"
      using three by blast
  qed (use best' in blast)
  have weeks': ?weeks
    using useAwards_weeks [of fetchA cw] by (simp add: week_has_awards_def [abs_def])
  have views: ?views
    using useAwards_first_titled [of _ fetchA cw] by (intro ballI)
  have incl: ?incl
    by (intro allI) (rule str_includes_iff)
  have repl: ?repl
  proof (intro allI conjI impI)
    fix s pat rep
    assume "\<not> str_includes s pat"
    then show "replace s pat rep = s"
      by (rule replace_absent)
  next
    fix s pat rep pre suf :: string
    assume "s = pre @ pat @ suf
            \<and> (\<forall>pre' suf'. s = pre' @ pat @ suf' \<longrightarrow> length pre \<le> length pre')"
    then show "replace s pat rep = pre @ rep @ suf"
      by (intro replace_first) blast+
  qed
  from local weeks' views incl repl show ?thesis
    by (intro conjI)
qed

theorem awards_trailing_window_witness:
  "Awards (\<lambda>q. if q = 100 then ''100.00'' else ''80.20'')
     (\<lambda>w :: int.
        if w = 6
        then Some [\<lparr>matchup_row.roster_id = 1, matchup_row.matchup_id = Some 1, matchup_row.points = Some (301 / 2)\<rparr>,
                   \<lparr>matchup_row.roster_id = 2, matchup_row.matchup_id = Some 1, matchup_row.points = Some (401 / 5)\<rparr>,
                   \<lparr>matchup_row.roster_id = 3, matchup_row.matchup_id = None, matchup_row.points = Some 95\<rparr>]
        else if w = 7
        then Some [\<lparr>matchup_row.roster_id = 1, matchup_row.matchup_id = Some 1, matchup_row.points = Some 100\<rparr>,
                   \<lparr>matchup_row.roster_id = 2, matchup_row.matchup_id = Some 1, matchup_row.points = Some 100\<rparr>,
                   \<lparr>matchup_row.roster_id = 3, matchup_row.matchup_id = None, matchup_row.points = Some 120\<rparr>]
        else None)
     (userMap_of
     [\<lparr>user_id = ''u1'', display_name = Some ''A'', username = None, user.avatar = None\<rparr>,
      \<lparr>user_id = ''u2'', display_name = None, username = Some ''B'', user.avatar = None\<rparr>,
      \<lparr>user_id = ''u3'', display_name = Some ''C'', username = Some ''c'', user.avatar = None\<rparr>])
     [\<lparr>roster.roster_id = 1, owner_id = Some ''u1'', settings = None, metadata = None\<rparr>,
      \<lparr>roster.roster_id = 2, owner_id = Some ''u2'', settings = None, metadata = None\<rparr>,
      \<lparr>roster.roster_id = 3, owner_id = Some ''u3'', settings = None, metadata = None\<rparr>] 7
   = Inr [\<lparr>week = 7, topDawg = \<lparr>team = Some ''C'', score.points = 120\<rparr>,
            superWeenie = \<lparr>team = Some ''A'', score.points = 100\<rparr>,
            horsesAss = \<lparr>horses_ass.name = Some ''A'', detail = ''100.00 pts''\<rparr>\<rparr>,
          \<lparr>week = 6, topDawg = \<lparr>team = Some ''A'', score.points = 301 / 2\<rparr>,
            superWeenie = \<lparr>team = Some ''B'', score.points = 401 / 5\<rparr>,
            horsesAss = \<lparr>horses_ass.name = Some ''B'', detail = ''80.20 pts''\<rparr>\<rparr>]
   \<and> [max 1 (7 - 2)..7] = [5, 6, 7 :: int]
   \<and> useAwards
         [3 \<mapsto> [\<lparr>backend_award.title = ''Weekly Top Dawg'', winner = ''Al'',
                  backend_award.detail = ''150.5''\<rparr>,
                \<lparr>backend_award.title = ''Top Dawg runner-up'', winner = ''Cy'',
                  backend_award.detail = ''140''\<rparr>],
          4 \<mapsto> []] 4
     = [\<lparr>week = 3,
         week_awards.topDawg = Some \<lparr>award_view.team = ''Al'', award_view.points = ''150.5''\<rparr>,
         week_awards.superWeenie = None, week_awards.horsesAss = None\<rparr>]"
proof -
  let ?feed = "[3 \<mapsto> [\<lparr>backend_award.title = ''Weekly Top Dawg'', winner = ''Al'',
                  backend_award.detail = ''150.5''\<rparr>,
                \<lparr>backend_award.title = ''Top Dawg runner-up'', winner = ''Cy'',
                  backend_award.detail = ''140''\<rparr>],
          4 \<mapsto> []]"
  have f: "useAwards ?feed 4
     = [\<lparr>week = 3,
         week_awards.topDawg = Some \<lparr>award_view.team = ''Al'', award_view.points = ''150.5''\<rparr>,
         week_awards.superWeenie = None, week_awards.horsesAss = None\<rparr>]"
    by code_simp
  have g: "rev (filter (\<lambda>w. case ?feed w of None \<Rightarrow> False | Some weekAwards \<Rightarrow> weekAwards \<noteq> [])
                 [max 1 (4 - 2)..4]) = [3]"
    by code_simp
  from awards_trailing_window [where fetchA = ?feed and cw = 4, THEN conjunct2, THEN conjunct1]
  have h: "map week (useAwards ?feed 4) = [3]"
    unfolding g .
  let ?fetch = "(\<lambda>w :: int.
        if w = 6
        then Some [\<lparr>matchup_row.roster_id = 1, matchup_row.matchup_id = Some 1, matchup_row.points = Some (301 / 2)\<rparr>,
                   \<lparr>matchup_row.roster_id = 2, matchup_row.matchup_id = Some 1, matchup_row.points = Some (401 / 5)\<rparr>,
                   \<lparr>matchup_row.roster_id = 3, matchup_row.matchup_id = None, matchup_row.points = Some 95\<rparr>]
        else if w = 7
        then Some [\<lparr>matchup_row.roster_id = 1, matchup_row.matchup_id = Some 1, matchup_row.points = Some 100\<rparr>,
                   \<lparr>matchup_row.roster_id = 2, matchup_row.matchup_id = Some 1, matchup_row.points = Some 100\<rparr>,
                   \<lparr>matchup_row.roster_id = 3, matchup_row.matchup_id = None, matchup_row.points = Some 120\<rparr>]
        else None)"
  let ?um = "userMap_of
     [\<lparr>user_id = ''u1'', display_name = Some ''A'', username = None, user.avatar = None\<rparr>,
      \<lparr>user_id = ''u2'', display_name = None, username = Some ''B'', user.avatar = None\<rparr>,
      \<lparr>user_id = ''u3'', display_name = Some ''C'', username = Some ''c'', user.avatar = None\<rparr>]"
  let ?rs = "[\<lparr>roster.roster_id = 1, owner_id = Some ''u1'', settings = None, metadata = None\<rparr>,
      \<lparr>roster.roster_id = 2, owner_id = Some ''u2'', settings = None, metadata = None\<rparr>,
      \<lparr>roster.roster_id = 3, owner_id = Some ''u3'', settings = None, metadata = None\<rparr>]"
  let ?tf = "(\<lambda>q. if q = 100 then ''100.00'' else ''80.20'')"
  let ?res = "[\<lparr>week = 7, topDawg = \<lparr>team = Some ''C'', score.points = 120\<rparr>,
            superWeenie = \<lparr>team = Some ''A'', score.points = 100\<rparr>,
            horsesAss = \<lparr>horses_ass.name = Some ''A'', detail = ''100.00 pts''\<rparr>\<rparr>,
          \<lparr>week = 6, topDawg = \<lparr>team = Some ''A'', score.points = 301 / 2\<rparr>,
            superWeenie = \<lparr>team = Some ''B'', score.points = 401 / 5\<rparr>,
            horsesAss = \<lparr>horses_ass.name = Some ''B'', detail = ''80.20 pts''\<rparr>\<rparr>]"
  have e: "Awards ?tf ?fetch ?um ?rs 7 = Inr ?res"
    by code_simp
  from awards_trailing_window [of ?tf ?fetch ?um ?rs 7, THEN conjunct1]
  obtain as where "Awards ?tf ?fetch ?um ?rs 7 = Inr as"
    and "3 \<le> (7::int) \<longrightarrow> [max 1 (7 - 2)..7] = [7 - 2, 7 - 1, 7 :: int]"
    by (elim exE conjE)
  with e f h show ?thesis
    by simp
qed

text \<open>
  C3 as stated fails for the backend variant: the week 3 below is processed and returned,
  yet no top scorer and no low scorer is selected for it, since no title of its feed
  contains \<open>Top Dawg\<close> or \<open>Super Weenie\<close>.
\<close>

theorem useAwards_no_selection_counterexample:
  "useAwards
     [3 \<mapsto> [\<lparr>backend_award.title = ''Bench Boss'', winner = ''Bob'',
             backend_award.detail = ''left 40 on the bench''\<rparr>]] 3
   = [\<lparr>week = 3, week_awards.topDawg = None, week_awards.superWeenie = None,
        week_awards.horsesAss = None\<rparr>]"
  by code_simp

section \<open>Properties of the Resolver\<close>

lemma foldl_upd_find:
  "foldl (\<lambda>m x. m(key x \<mapsto> val x)) m0 xs k
   = (case find (\<lambda>x. key x = k) (rev xs) of None \<Rightarrow> m0 k | Some x \<Rightarrow> Some (val x))"
  by (induction xs rule: rev_induct) auto

lemma userMap_of_find:
  "userMap_of us k = map_option userMap_entry (find (\<lambda>u. user_id u = k) (rev us))"
  by (simp add: userMap_of_def foldl_upd_find split: option.splits)

lemma rosterToUser_of_find:
  "rosterToUser_of um rs rid
   = map_option (resolved_name um) (find (\<lambda>r. roster.roster_id r = rid) (rev rs))"
  by (simp add: rosterToUser_of_def foldl_upd_find split: option.splits)

lemma userMap_entry_name_nonempty: "user_info.name (userMap_entry u) \<noteq> []"
  by (auto simp: userMap_entry_def str_or_def str_or_opt_def truthy_str_def split: option.splits)

lemma userMap_of_name_nonempty: "userMap_of us k = Some e \<Longrightarrow> user_info.name e \<noteq> []"
  by (auto simp: userMap_of_find userMap_entry_name_nonempty)

lemma resolved_name_nonempty: "resolved_name um r \<noteq> []"
  by (auto simp: resolved_name_def str_or_def split: option.splits)

lemma find_rev_Some: "x \<in> set xs \<Longrightarrow> \<exists>y. find (\<lambda>z. f z = f x) (rev xs) = Some y"
  by (cases "find (\<lambda>z. f z = f x) (rev xs)") (auto simp: find_None_iff)

text \<open>
  C7. \<open>userMap\<close> maps an owner id to the entry of the last user with that id; the name
  of an entry is the display name, else the username, else \<open>Unknown\<close>, and the avatar is
  absent (\<open>null\<close>) when the user has none. \<open>rosterToUser\<close> maps a roster id to the name of
  the owner's entry, or to \<open>Team\<close> followed by the roster id when \<open>userMap\<close> has no entry
  for the owner. Both are total: every roster id of the input gets a non-empty name.
\<close>

theorem resolver_fallbacks:
  "(\<forall>k. userMap_of us k = map_option userMap_entry (find (\<lambda>u. user_id u = k) (rev us)))
   \<and> (\<forall>u. (display_name u = None \<and> username u = None \<longrightarrow>
              user_info.name (userMap_entry u) = ''Unknown'')
          \<and> (truthy_str (display_name u) \<longrightarrow>
              Some (user_info.name (userMap_entry u)) = display_name u)
          \<and> (\<not> truthy_str (display_name u) \<and> truthy_str (username u) \<longrightarrow>
              Some (user_info.name (userMap_entry u)) = username u)
          \<and> (\<not> truthy_str (display_name u) \<and> \<not> truthy_str (username u) \<longrightarrow>
              user_info.name (userMap_entry u) = ''Unknown'')
          \<and> (user.avatar u = None \<longrightarrow> avatar (userMap_entry u) = None))
   \<and> (\<forall>rid. rosterToUser_of (userMap_of us) rs rid
            = map_option (resolved_name (userMap_of us))
                (find (\<lambda>r. roster.roster_id r = rid) (rev rs)))
   \<and> (\<forall>r. resolved_name (userMap_of us) r
          = (case userMap_of us (prop_key (owner_id r)) of
               None \<Rightarrow> ''Team '' @ js_int_string (roster.roster_id r)
             | Some e \<Rightarrow> user_info.name e))
   \<and> (\<forall>r\<in>set rs. \<exists>n. rosterToUser_of (userMap_of us) rs (roster.roster_id r) = Some n \<and> n \<noteq> [])"
proof -
  have a: "\<forall>k. userMap_of us k = map_option userMap_entry (find (\<lambda>u. user_id u = k) (rev us))"
    by (simp add: userMap_of_find)
  have b: "(display_name u = None \<and> username u = None \<longrightarrow>
              user_info.name (userMap_entry u) = ''Unknown'')
          \<and> (truthy_str (display_name u) \<longrightarrow>
              Some (user_info.name (userMap_entry u)) = display_name u)
          \<and> (\<not> truthy_str (display_name u) \<and> truthy_str (username u) \<longrightarrow>
              Some (user_info.name (userMap_entry u)) = username u)
          \<and> (\<not> truthy_str (display_name u) \<and> \<not> truthy_str (username u) \<longrightarrow>
              user_info.name (userMap_entry u) = ''Unknown'')
          \<and> (user.avatar u = None \<longrightarrow> avatar (userMap_entry u) = None)" for u
    by (auto simp: userMap_entry_def str_or_def str_or_opt_def truthy_str_def
        split: option.splits)
  have c: "\<forall>rid. rosterToUser_of (userMap_of us) rs rid
            = map_option (resolved_name (userMap_of us))
                (find (\<lambda>r. roster.roster_id r = rid) (rev rs))"
    by (simp add: rosterToUser_of_find)
  have d: "resolved_name (userMap_of us) r
          = (case userMap_of us (prop_key (owner_id r)) of
               None \<Rightarrow> ''Team '' @ js_int_string (roster.roster_id r)
             | Some e \<Rightarrow> user_info.name e)" for r
    using userMap_of_name_nonempty [of us "prop_key (owner_id r)"]
    by (auto simp: resolved_name_def str_or_def split: option.splits)
  have e: "\<exists>n. rosterToUser_of (userMap_of us) rs (roster.roster_id r) = Some n \<and> n \<noteq> []"
    if "r \<in> set rs" for r
    using find_rev_Some [OF that, of roster.roster_id]
    by (auto simp: rosterToUser_of_find resolved_name_nonempty)
  from a b c d e show ?thesis by blast
qed

theorem resolver_fallbacks_witness:
  "userMap_of
     [\<lparr>user_id = ''u1'', display_name = Some ''A'', username = Some ''a'', user.avatar = Some ''abc''\<rparr>,
      \<lparr>user_id = ''u2'', display_name = None, username = None, user.avatar = None\<rparr>] ''u1''
   = Some \<lparr>user_info.name = ''A'',
            avatar = Some ''https://sleepercdn.com/avatars/thumbs/abc''\<rparr>
   \<and> userMap_of
     [\<lparr>user_id = ''u1'', display_name = Some ''A'', username = Some ''a'', user.avatar = Some ''abc''\<rparr>,
      \<lparr>user_id = ''u2'', display_name = None, username = None, user.avatar = None\<rparr>] ''u2''
   = Some \<lparr>user_info.name = ''Unknown'', avatar = None\<rparr>
   \<and> map (rosterToUser_of
          (userMap_of
     [\<lparr>user_id = ''u1'', display_name = Some ''A'', username = Some ''a'', user.avatar = Some ''abc''\<rparr>,
      \<lparr>user_id = ''u2'', display_name = None, username = None, user.avatar = None\<rparr>])
     [\<lparr>roster.roster_id = 1, owner_id = Some ''u1'', settings = None, metadata = None\<rparr>,
      \<lparr>roster.roster_id = 2, owner_id = Some ''u2'', settings = None, metadata = None\<rparr>,
      \<lparr>roster.roster_id = 3, owner_id = None, settings = None, metadata = None\<rparr>]) [1, 2, 3]
   = [Some ''A'', Some ''Unknown'', Some ''Team 3'']"
proof -
  let ?us = "[\<lparr>user_id = ''u1'', display_name = Some ''A'', username = Some ''a'', user.avatar = Some ''abc''\<rparr>,
      \<lparr>user_id = ''u2'', display_name = None, username = None, user.avatar = None\<rparr>]"
  let ?rs = "[\<lparr>roster.roster_id = 1, owner_id = Some ''u1'', settings = None, metadata = None\<rparr>,
      \<lparr>roster.roster_id = 2, owner_id = Some ''u2'', settings = None, metadata = None\<rparr>,
      \<lparr>roster.roster_id = 3, owner_id = None, settings = None, metadata = None\<rparr>]"
  let ?u2 = "\<lparr>user_id = ''u2'', display_name = None, username = None, user.avatar = None\<rparr>"
  note t = resolver_fallbacks [of ?us ?rs, THEN conjunct2, THEN conjunct1, rule_format, of ?u2]
  have "user_info.name (userMap_entry ?u2) = ''Unknown''"
    by (rule t [THEN conjunct1, rule_format]) simp
  moreover have "userMap_of ?us ''u1''
      = Some \<lparr>user_info.name = ''A'',
               avatar = Some ''https://sleepercdn.com/avatars/thumbs/abc''\<rparr>"
    by code_simp
  moreover have "userMap_of ?us ''u2'' = Some \<lparr>user_info.name = ''Unknown'', avatar = None\<rparr>"
    by code_simp
  moreover have "map (rosterToUser_of (userMap_of ?us) ?rs) [1, 2, 3]
      = [Some ''A'', Some ''Unknown'', Some ''Team 3'']"
    by code_simp
  ultimately show ?thesis
    by simp
qed

section \<open>Properties of the refresh\<close>

lemma refresh_try_failure:
  "nflState_r = None \<or> users_r = None \<or> rosters_r = None \<Longrightarrow>
   refresh_try nflState_r league_r users_r rosters_r = Inl (Error ''Failed to fetch league data'')"
  by (auto simp: refresh_try_def split: option.splits)

lemma refresh_league_optional:
  "\<exists>snapshot. refresh (Some nfl) None (Some us) (Some rs) d
                = [d\<lparr>loading := True, error := None\<rparr>, snapshot]
              \<and> error snapshot = None \<and> league snapshot = None
              \<and> standings snapshot = standings_of (userMap_of us) rs"
  by (simp add: refresh_def refresh_try_def Let_def)

lemma refresh_App_try_failure:
  "(USE_BACKEND_API \<and> (state_r = None \<or> standingsData_r = None))
   \<or> (\<not> USE_BACKEND_API \<and> (nflState_r = None \<or> users_r = None \<or> rosters_r = None)) \<Longrightarrow>
   refresh_App_try state_r standingsData_r nflState_r users_r rosters_r
   = Inl (Error (if USE_BACKEND_API then ''Failed to connect to Python Brain''
                 else ''Failed to fetch league data''))"
  by (auto simp: refresh_App_try_def split: option.splits)

lemma refresh_App_failure:
  assumes "(USE_BACKEND_API \<and> (state_r = None \<or> standingsData_r = None))
   \<or> (\<not> USE_BACKEND_API \<and> (nflState_r = None \<or> users_r = None \<or> rosters_r = None))"
  shows "refresh_App state_r standingsData_r nflState_r users_r rosters_r d
         = [d\<lparr>app_data.loading := True, app_data.error := None\<rparr>,
            d\<lparr>app_data.loading := False,
              app_data.error := Some (if USE_BACKEND_API then ''Failed to connect to Python Brain''
                                      else ''Failed to fetch league data'')\<rparr>]"
  using refresh_App_try_failure [OF assms]
  by (simp add: refresh_App_def)

text \<open>
  C8. When one of the fetches the refresh checks (\<open>nflState\<close>, \<open>users\<close>, \<open>rosters\<close>) failed,
  the refresh ends in the error state with the message \<open>Failed to fetch league data\<close>, and
  every state it publishes keeps the standings, the maps and the other data fields of
  the state before the refresh: nothing built from the partial results is published.
  The same holds for the refresh of \<open>App.jsx\<close> and the fetches of the path it takes: the
  backend state and standings, or the upstream state, users and rosters.
\<close>

theorem refresh_failure:
  "(nflState_r = None \<or> users_r = None \<or> rosters_r = None \<longrightarrow>
      refresh nflState_r league_r users_r rosters_r d
      = [d\<lparr>loading := True, error := None\<rparr>,
         d\<lparr>loading := False, error := Some ''Failed to fetch league data''\<rparr>]
      \<and> (\<forall>s\<in>set (refresh nflState_r league_r users_r rosters_r d).
            standings s = standings d \<and> userMap s = userMap d \<and> users s = users d
            \<and> rosters s = rosters d \<and> nflState s = nflState d \<and> league s = league d
            \<and> currentWeek s = currentWeek d))
   \<and> ((USE_BACKEND_API \<and> (state_r = None \<or> standingsData_r = None))
       \<or> (\<not> USE_BACKEND_API \<and> (nflState_r = None \<or> users_r = None \<or> rosters_r = None)) \<longrightarrow>
      refresh_App state_r standingsData_r nflState_r users_r rosters_r a
      = [a\<lparr>app_data.loading := True, app_data.error := None\<rparr>,
         a\<lparr>app_data.loading := False,
           app_data.error := Some (if USE_BACKEND_API then ''Failed to connect to Python Brain''
                                   else ''Failed to fetch league data'')\<rparr>]
      \<and> (\<forall>s\<in>set (refresh_App state_r standingsData_r nflState_r users_r rosters_r a).
            app_data.standings s = app_data.standings a
            \<and> app_data.userMap s = app_data.userMap a
            \<and> app_data.rosters s = app_data.rosters a
            \<and> app_data.nflState s = app_data.nflState a
            \<and> app_data.currentWeek s = app_data.currentWeek a))"
  (is "(?h1 \<longrightarrow> ?c1) \<and> (?h2 \<longrightarrow> ?c2)")
proof (intro conjI)
  show "?h1 \<longrightarrow> ?c1"
  proof
    assume h: ?h1
    have "refresh nflState_r league_r users_r rosters_r d
           = [d\<lparr>loading := True, error := None\<rparr>,
              d\<lparr>loading := False, error := Some ''Failed to fetch league data''\<rparr>]"
      using refresh_try_failure [OF h, of league_r]
      by (simp add: refresh_def)
    then show ?c1 by simp
  qed
next
  show "?h2 \<longrightarrow> ?c2"
  proof
    assume h: ?h2
    show ?c2
      by (simp add: refresh_App_failure [OF h, of a])
  qed
qed

theorem refresh_failure_witness:
  "refresh (Some \<lparr>nfl_state.week = Some 7\<rparr>) (None :: unit option)
     (Some [\<lparr>user_id = ''u1'', display_name = Some ''A'', username = None, user.avatar = None\<rparr>])
     None
     \<lparr>loading = False, error = None, nflState = None, league = None, users = [], rosters = [],
       standings = [], currentWeek = 1, userMap = Map.empty\<rparr>
   = [\<lparr>loading = True, error = None, nflState = None, league = None, users = [], rosters = [],
        standings = [], currentWeek = 1, userMap = Map.empty\<rparr>,
      \<lparr>loading = False, error = Some ''Failed to fetch league data'', nflState = None,
        league = None, users = [], rosters = [], standings = [], currentWeek = 1,
        userMap = Map.empty\<rparr>]
   \<and> refresh_App (Some \<lparr>nfl_state.week = Some 7\<rparr>)
       (None :: backend_standing list option) None None None
       \<lparr>app_data.loading = False, app_data.error = None, app_data.nflState = None,
         app_data.standings = [], app_data.currentWeek = 1, app_data.userMap = Map.empty,
         app_data.rosters = []\<rparr>
     = [\<lparr>app_data.loading = True, app_data.error = None, app_data.nflState = None,
          app_data.standings = [], app_data.currentWeek = 1, app_data.userMap = Map.empty,
          app_data.rosters = []\<rparr>,
        \<lparr>app_data.loading = False, app_data.error = Some ''Failed to connect to Python Brain'',
          app_data.nflState = None, app_data.standings = [], app_data.currentWeek = 1,
          app_data.userMap = Map.empty, app_data.rosters = []\<rparr>]"
proof -
  let ?nfl = "Some \<lparr>nfl_state.week = Some 7\<rparr>"
  let ?us = "Some [\<lparr>user_id = ''u1'', display_name = Some ''A'', username = None,
                     user.avatar = None\<rparr>]"
  let ?d = "\<lparr>loading = False, error = None, nflState = None, league = None :: unit option,
             users = [], rosters = [], standings = [], currentWeek = 1, userMap = Map.empty\<rparr>"
  let ?a = "\<lparr>app_data.loading = False, app_data.error = None, app_data.nflState = None,
         app_data.standings = [] :: (unit backend_team + ranked_team) list,
         app_data.currentWeek = 1, app_data.userMap = Map.empty, app_data.rosters = []\<rparr>"
  have h1: "?nfl = None \<or> ?us = None \<or> (None :: roster list option) = None"
    by simp
  have h2: "(USE_BACKEND_API \<and> (?nfl = None \<or> (None :: backend_standing list option) = None))
       \<or> (\<not> USE_BACKEND_API
           \<and> ((None :: nfl_state option) = None \<or> (None :: user list option) = None
               \<or> (None :: roster list option) = None))"
    by (simp add: USE_BACKEND_API_def)
  have one: "refresh ?nfl None ?us None ?d
      = [?d\<lparr>loading := True, error := None\<rparr>,
         ?d\<lparr>loading := False, error := Some ''Failed to fetch league data''\<rparr>]"
    using refresh_failure [where nflState_r = ?nfl and users_r = ?us
        and rosters_r = "None :: roster list option" and league_r = "None :: unit option"
        and d = ?d, THEN conjunct1, rule_format, OF h1, THEN conjunct1] .
  have "refresh_App ?nfl (None :: backend_standing list option) None None None ?a
      = [?a\<lparr>app_data.loading := True, app_data.error := None\<rparr>,
         ?a\<lparr>app_data.loading := False,
             app_data.error := Some (if USE_BACKEND_API then ''Failed to connect to Python Brain''
                                     else ''Failed to fetch league data'')\<rparr>]"
    using refresh_failure [where state_r = ?nfl
        and standingsData_r = "None :: backend_standing list option"
        and nflState_r = "None :: nfl_state option" and users_r = "None :: user list option"
        and rosters_r = "None :: roster list option" and a = ?a,
        THEN conjunct2, rule_format, OF h2, THEN conjunct1] .
  then have "refresh_App ?nfl (None :: backend_standing list option) None None None ?a
      = [?a\<lparr>app_data.loading := True, app_data.error := None\<rparr>,
         ?a\<lparr>app_data.loading := False,
             app_data.error := Some ''Failed to connect to Python Brain''\<rparr>]"
    by (simp add: USE_BACKEND_API_def)
  then show ?thesis
    using one by simp
qed

section \<open>Totality of the derivations\<close>

text \<open>
  C9. The pairer and the award calculator, the two derivations with an operation that can
  throw, return a result on every input; the ranker and the trend aggregator have no such
  operation. Missing settings give wins, losses and points 0, a missing streak gives the
  empty string, an unresolved owner or roster gives the \<open>Team\<close> label, and a row without
  points counts 0 for the pairer and is filtered out by the aggregator and the calculator.
\<close>

theorem derivations_total:
  "(\<exists>ps. pairs_of r2u data = Inr ps)
   \<and> (\<exists>ms. useMatchups um rs fetched = Inr ms)
   \<and> (\<exists>as. Awards toFixed2 fetch um rs cw = Inr as)
   \<and> length (standings_of um rs) = length rs
   \<and> (\<forall>r. (settings r = None \<longrightarrow>
              wins (standings_row um r) = 0 \<and> losses (standings_row um r) = 0
              \<and> pf (standings_row um r) = 0 \<and> pa (standings_row um r) = 0)
          \<and> (metadata r = None \<longrightarrow> streak (standings_row um r) = [])
          \<and> (um (prop_key (owner_id r)) = None \<longrightarrow>
              user_info.name (standings_row um r) = ''Team '' @ js_int_string (roster.roster_id r)))
   \<and> (\<forall>m. matchup_row.points m = None \<longrightarrow>
            entry.points (mk_entry r2u m) = 0 \<and> positive_scores [m] = []
            \<and> award_scores r2u [m] = [])
   \<and> (\<forall>m. r2u (matchup_row.roster_id m) = None \<longrightarrow>
            teamName (mk_entry r2u m) = ''Team '' @ js_int_string (matchup_row.roster_id m))"
proof -
  have p: "\<exists>ps. pairs_of r2u data = Inr ps" for r2u data
    using pairs_of_result by blast
  have m: "\<exists>ms. useMatchups um rs fetched = Inr ms"
    using p by (cases fetched) (simp_all add: useMatchups_def)
  have a: "\<exists>as. Awards toFixed2 fetch um rs cw = Inr as"
    using Awards_result by blast
  have l: "length (standings_of um rs) = length rs"
    by (simp add: standings_of_def length_array_sort)
  have r: "(settings r = None \<longrightarrow>
              wins (standings_row um r) = 0 \<and> losses (standings_row um r) = 0
              \<and> pf (standings_row um r) = 0 \<and> pa (standings_row um r) = 0)
          \<and> (metadata r = None \<longrightarrow> streak (standings_row um r) = [])
          \<and> (um (prop_key (owner_id r)) = None \<longrightarrow>
              user_info.name (standings_row um r) = ''Team '' @ js_int_string (roster.roster_id r))"
    for r
    by (simp add: standings_row_def num_or_def str_or_def resolved_name_def)
  have s: "matchup_row.points m = None \<longrightarrow>
            entry.points (mk_entry r2u m) = 0 \<and> positive_scores [m] = []
            \<and> award_scores r2u [m] = []" for m
    by (simp add: mk_entry_def positive_scores_def award_scores_def num_or_def)
  have n: "r2u (matchup_row.roster_id m) = None \<longrightarrow>
            teamName (mk_entry r2u m) = ''Team '' @ js_int_string (matchup_row.roster_id m)" for m
    by (simp add: mk_entry_def str_or_def)
  from p m a l r s n show ?thesis by blast
qed

theorem derivations_total_witness:
  "settings \<lparr>roster.roster_id = 12, owner_id = None, settings = None, metadata = None\<rparr> = None
   \<and> wins (standings_row Map.empty
        \<lparr>roster.roster_id = 12, owner_id = None, settings = None, metadata = None\<rparr>) = 0
   \<and> pf (standings_row Map.empty
        \<lparr>roster.roster_id = 12, owner_id = None, settings = None, metadata = None\<rparr>) = 0
   \<and> standings_of Map.empty
        [\<lparr>roster.roster_id = 12, owner_id = None, settings = None, metadata = None\<rparr>]
     = [\<lparr>user_info.name = ''Team 12'', avatar = None, wins = 0, losses = 0, pf = 0, pa = 0,
          rosterId = 12, ownerId = None, streak = [], rank = 1\<rparr>]
   \<and> pairs_of Map.empty
        [\<lparr>matchup_row.roster_id = 1, matchup_row.matchup_id = Some 1, matchup_row.points = None\<rparr>,
         \<lparr>matchup_row.roster_id = 2, matchup_row.matchup_id = Some 1, matchup_row.points = Some 3\<rparr>,
         \<lparr>matchup_row.roster_id = 3, matchup_row.matchup_id = Some 2, matchup_row.points = Some 5\<rparr>]
     = Inr [\<lparr>team1 = ''Team 1'', score1 = 0, team2 = ''Team 2'', score2 = 3\<rparr>]"
proof -
  let ?r = "\<lparr>roster.roster_id = 12, owner_id = None, settings = None, metadata = None\<rparr>"
  have h: "settings ?r = None"
    by simp
  note t = derivations_total [where um = Map.empty, THEN conjunct2, THEN conjunct2,
      THEN conjunct2, THEN conjunct2, THEN conjunct1, rule_format, of ?r,
      THEN conjunct1, rule_format, OF h]
  have "standings_of Map.empty [?r]
     = [\<lparr>user_info.name = ''Team 12'', avatar = None, wins = 0, losses = 0, pf = 0, pa = 0,
          rosterId = 12, ownerId = None, streak = [], rank = 1\<rparr>]"
    by code_simp
  moreover have "pairs_of Map.empty
        [\<lparr>matchup_row.roster_id = 1, matchup_row.matchup_id = Some 1, matchup_row.points = None\<rparr>,
         \<lparr>matchup_row.roster_id = 2, matchup_row.matchup_id = Some 1, matchup_row.points = Some 3\<rparr>,
         \<lparr>matchup_row.roster_id = 3, matchup_row.matchup_id = Some 2, matchup_row.points = Some 5\<rparr>]
     = Inr [\<lparr>team1 = ''Team 1'', score1 = 0, team2 = ''Team 2'', score2 = 3\<rparr>]"
    by code_simp
  ultimately show ?thesis
    using t h by simp
qed

end
